theory Spec2Isabelle
  imports Complex_Main "HOL-Library.AList"
begin

section \<open>Data model of the strategy engine\<close>

text \<open>
  The embedding follows \<^verbatim>\<open>strategy_engine.py\<close> (class StrategyEngine) and the two
  as-of lookups of \<^verbatim>\<open>db_client.py\<close>.

  \<^item> A Python float (a price, a percentage) is the real number it denotes, and every
    arithmetic operation on floats rounds its exact result to the nearest double, ties to
    the even significand, as IEEE 754 does (section on double-precision arithmetic).
    Infinities and NaN are not values of the model.
  \<^item> A Python dict whose order matters (\<^verbatim>\<open>state["legs"]\<close>, \<^verbatim>\<open>config["legs"]\<close>) is an
    association list with the dict's insertion order; \<^verbatim>\<open>d[k] = v\<close> is \<open>AList.update\<close> and
    the in-place mutation of one leg dict is \<open>AList.map_entry\<close>.
  \<^item> Every exception the modelled code can raise on these inputs is a value of \<open>error\<close>;
    an operation returns its result (or the error) together with the world it leaves.
  \<^item> The coroutines that \<^verbatim>\<open>asyncio.gather\<close> runs are executed one after the other, in
    the order of the legs dict. Each coroutine mutates only its own leg.
\<close>

datatype error = KeyError | ValueError | ZeroDivisionError

text \<open>\<^verbatim>\<open>state["status"]\<close>: the overall phase.\<close>

datatype phase = IDLE | MONITORING_RANGE | ACTIVE

text \<open>
  \<^verbatim>\<open>leg_data["status"]\<close>. \<open>LEG_IDLE\<close> is the status \<^verbatim>\<open>"IDLE"\<close> of the placeholder legs
  that \<^verbatim>\<open>start\<close> writes for the dashboard; \<open>LEG_ACTIVE\<close> is the leg status \<^verbatim>\<open>"ACTIVE"\<close>.
\<close>

datatype leg_status =
  LEG_IDLE | WAITING_RANGE | WAITING_ENTRY | LEG_ACTIVE | WAITING_REENTRY | EXITED | DONE

datatype action = BUY | SELL

datatype exit_tag = SL_HIT | GAP_SL_HIT | DAILY_SQUARE_OFF

datatype option_type = CE | PE

text \<open>
  One leg dict. A placeholder leg has no key \<^verbatim>\<open>"action"\<close> (nor \<^verbatim>\<open>"sl_pct"\<close>,
  \<^verbatim>\<open>"entries_count"\<close>, the trigger percentages): \<open>action l = None\<close> stands for the absent
  key. Every code path reads \<^verbatim>\<open>leg_data["action"]\<close> before any of the other keys that a
  placeholder lacks, so the KeyError of a placeholder is always the one on \<^verbatim>\<open>"action"\<close>.
  \<open>exit_price\<close> and \<open>exit_reason\<close> are the keys that only \<^verbatim>\<open>execute_exit\<close> adds.
\<close>

record leg =
  strike :: real
  token :: int
  symbol :: string
  expiry :: string
  action :: "action option"
  ref_premium :: real
  status :: leg_status
  range_high :: real
  range_low :: real
  entry_price :: real
  sl_price :: real
  lots :: int
  sl_pct :: real
  entry_trigger_pct :: real
  reentry_trigger_pct :: real
  entries_count :: nat
  exit_price :: "real option"
  exit_reason :: "exit_tag option"

text \<open>\<^verbatim>\<open>self.state\<close> (the key \<^verbatim>\<open>"current_phase"\<close> is never written and is left out).\<close>

record runtime_state =
  phase :: phase
  legs :: "(string \<times> leg) list"
  selected_expiry :: "string option"
  exit_triggered :: bool
  instrument :: "string option"

text \<open>
  What the engine did to the outside: a call of \<^verbatim>\<open>angel.place_order\<close> (symbol, token,
  transaction type, quantity) or the log line of a paper trade.
\<close>

datatype event =
  GatewayOrder string int action int
  | PaperTrade string int action int

text \<open>
  The world: the in-memory state, the contents of \<^verbatim>\<open>strategy_state.json\<close> (\<open>None\<close>: no
  file) and the orders so far, oldest first.
\<close>

record world =
  mem :: runtime_state
  disk :: "runtime_state option"
  orders :: "event list"

text \<open>One entry of \<^verbatim>\<open>config["strategy_settings"]["legs"]\<close>.\<close>

record leg_config =
  cfg_lots :: int
  percentage_of_straddle :: real
  expiry_type :: string
  cfg_action :: action
  sl_percentage :: real
  entry_trigger_percentage :: real
  reentry_trigger_percentage :: real

text \<open>
  The configuration file, flattened. The four \<^verbatim>\<open>"HH:MM"\<close> strings of \<^verbatim>\<open>time_range\<close> are
  given as parsed (hour, minute) pairs, as \<^verbatim>\<open>map(int, s.split(':'))\<close> yields them.
\<close>

record settings =
  is_running :: bool
  paper_trading :: bool
  cfg_instrument :: string
  strike_step :: real
  global_lots :: int
  lot_sizes :: "string \<Rightarrow> int option"
  instrument_map :: "string \<Rightarrow> string option"
  range_start :: "int \<times> int"
  range_end :: "int \<times> int"
  check_condition :: "int \<times> int"
  strategy_exit :: "int \<times> int"
  buffer_minutes :: int
  gap_check_window_minutes :: int
  exit_check_window_minutes :: int
  leg_configs :: "(string \<times> leg_config) list"

text \<open>
  What \<^verbatim>\<open>asyncio.wait_for(... place_order ...)\<close> ends with: the value returned (an order id
  or \<^verbatim>\<open>None\<close>), a TimeoutError, or another exception.
\<close>

datatype reply = Returned "string option" | TimedOut | Raised

text \<open>One candidate dict of \<^verbatim>\<open>get_available_strikes_at\<close>.\<close>

record candidate =
  strike_price :: real
  last_price :: real
  cand_token :: int
  cand_symbol :: string

text \<open>
  The environment of one tick: the configuration read, the wall clock (a
  \<^verbatim>\<open>datetime.time\<close> as microseconds since midnight, which has the same order) and the
  answers of the database and of the broker. \<open>spot_value_at\<close> and \<open>option_value_at\<close> are
  the raw \<^verbatim>\<open>fetchval\<close> results of the two as-of queries; \<open>range_high_low\<close> is \<open>None\<close> when
  the aggregate row has a null \<^verbatim>\<open>high\<close>.
\<close>

record env =
  cfg :: settings
  now :: nat
  option_price :: "int \<Rightarrow> real option"
  place_order :: "string \<Rightarrow> int \<Rightarrow> action \<Rightarrow> int \<Rightarrow> reply"
  range_high_low :: "int \<Rightarrow> nat \<Rightarrow> nat \<Rightarrow> (real \<times> real) option"
  spot_value_at :: "string \<Rightarrow> nat \<Rightarrow> real option"
  option_value_at :: "int \<Rightarrow> nat \<Rightarrow> real option"
  active_expiries :: "string \<Rightarrow> string list"
  token_for_strike :: "string \<Rightarrow> real \<Rightarrow> option_type \<Rightarrow> string \<Rightarrow> int option"
  available_strikes_at :: "string \<Rightarrow> string \<Rightarrow> option_type \<Rightarrow> nat \<Rightarrow> candidate list"

section \<open>Double-precision arithmetic\<close>

text \<open>
  Python's \<^verbatim>\<open>round\<close> of a float to an int: to the nearest, ties to the even one. The
  same rounding picks the significand of a double.
\<close>

definition py_round :: "real \<Rightarrow> int" where
  "py_round x =
    (if x - of_int \<lfloor>x\<rfloor> < 1 / 2 then \<lfloor>x\<rfloor>
     else if x - of_int \<lfloor>x\<rfloor> > 1 / 2 then \<lfloor>x\<rfloor> + 1
     else if even \<lfloor>x\<rfloor> then \<lfloor>x\<rfloor>
     else \<lfloor>x\<rfloor> + 1)"

definition pow2 :: "int \<Rightarrow> real" where
  "pow2 k = (if 0 \<le> k then 2 ^ nat k else 1 / 2 ^ nat (- k))"

text \<open>The binary exponent of \<open>x \<ge> 1\<close>: the \<open>n\<close> with \<open>2 ^ n \<le> x < 2 ^ (n + 1)\<close>.\<close>

function expo_up :: "real \<Rightarrow> int" where
  "expo_up x = (if x < 2 then 0 else expo_up (x / 2) + 1)"
  by pat_completeness auto
termination
proof (relation "measure (\<lambda>x. nat \<lceil>x\<rceil>)")
  show "wf (measure (\<lambda>x. nat \<lceil>x\<rceil>))" by simp
next
  fix x :: real
  assume large: "\<not> x < 2"
  then have "x / 2 \<le> x - 1" by simp
  then have "\<lceil>x / 2\<rceil> \<le> \<lceil>x - 1\<rceil>" by (rule ceiling_mono)
  moreover have "0 < \<lceil>x\<rceil>" using large by (simp add: less_ceiling_iff)
  ultimately show "(x / 2, x) \<in> measure (\<lambda>x. nat \<lceil>x\<rceil>)"
    by simp
qed

text \<open>The binary exponent of \<open>0 < x < 1\<close>, a negative number.\<close>

function expo_down :: "real \<Rightarrow> int" where
  "expo_down x = (if x \<le> 0 \<or> 1 \<le> x then 0 else expo_down (2 * x) - 1)"
  by pat_completeness auto
termination
proof (relation "measure (\<lambda>x. nat \<lceil>1 / x\<rceil>)")
  show "wf (measure (\<lambda>x. nat \<lceil>1 / x\<rceil>))" by simp
next
  fix x :: real
  assume "\<not> (x \<le> 0 \<or> 1 \<le> x)"
  then have pos: "0 < x" and lt: "x < 1" by simp_all
  then have one: "1 < 1 / x" by simp
  have "1 / (2 * x) \<le> 1 / x - 1 / 2"
    using one pos by (simp add: field_simps)
  then have "\<lceil>1 / (2 * x)\<rceil> \<le> \<lceil>1 / x - 1 / 2\<rceil>" by (rule ceiling_mono)
  also have "\<dots> \<le> \<lceil>1 / x\<rceil>" by (rule ceiling_mono) simp
  finally have le: "\<lceil>1 / (2 * x)\<rceil> \<le> \<lceil>1 / x\<rceil>" .
  have "\<lceil>1 / (2 * x)\<rceil> < \<lceil>1 / x\<rceil>"
  proof (rule ccontr)
    assume "\<not> \<lceil>1 / (2 * x)\<rceil> < \<lceil>1 / x\<rceil>"
    with le have eq: "\<lceil>1 / (2 * x)\<rceil> = \<lceil>1 / x\<rceil>" by simp
    have "1 / x \<le> of_int \<lceil>1 / x\<rceil>" by (rule le_of_int_ceiling)
    also have "\<dots> = of_int \<lceil>1 / (2 * x)\<rceil>" using eq by simp
    also have "\<dots> < 1 / (2 * x) + 1" using ceiling_correct [of "1 / (2 * x)"] by linarith
    finally have "1 / x < 1 / (2 * x) + 1" .
    then have "1 / (2 * x) < 1" using pos by (simp add: field_simps)
    then have "\<lceil>1 / (2 * x)\<rceil> \<le> 1" by (simp add: ceiling_le_iff)
    moreover have "2 \<le> \<lceil>1 / x\<rceil>" using one by (simp add: le_ceiling_iff)
    ultimately show False using eq by simp
  qed
  moreover have "0 < \<lceil>1 / x\<rceil>"
  proof -
    have "1 / x \<le> of_int \<lceil>1 / x\<rceil>" by (rule le_of_int_ceiling)
    with one have "(0::real) < of_int \<lceil>1 / x\<rceil>" by linarith
    then show ?thesis by simp
  qed
  ultimately show "(2 * x, x) \<in> measure (\<lambda>x. nat \<lceil>1 / x\<rceil>)"
    by simp
qed

declare expo_up.simps [simp del] expo_down.simps [simp del]

definition binary_exponent :: "real \<Rightarrow> int" where
  "binary_exponent x = (if 1 \<le> x then expo_up x else expo_down x)"

text \<open>
  \<open>fl x\<close>: the double nearest to \<open>x\<close>. A double has a significand of 53 bits, so with the
  binary exponent \<open>n\<close> of \<open>\<bar>x\<bar>\<close> (not below -1022, where the subnormal numbers begin) it is
  a multiple of \<open>2 ^ (n - 52)\<close>, and the multiple is chosen by rounding to the nearest,
  ties to even. A result of magnitude \<open>2 ^ 1024\<close> or more, which IEEE 754 replaces by an
  infinity, stays the large real number here: in a comparison with a finite double it
  behaves as the infinity does, and the modelled code does nothing else with it.
\<close>

definition fl :: "real \<Rightarrow> real" where
  "fl x =
    (if x = 0 then 0
     else of_int (py_round (x / pow2 (max (binary_exponent \<bar>x\<bar>) (- 1022) - 52)))
            * pow2 (max (binary_exponent \<bar>x\<bar>) (- 1022) - 52))"

text \<open>Python's \<^verbatim>\<open>+\<close>, \<^verbatim>\<open>-\<close>, \<^verbatim>\<open>*\<close> and \<^verbatim>\<open>/\<close> on floats (the divisor is not zero).\<close>

definition float_add :: "real \<Rightarrow> real \<Rightarrow> real" where
  "float_add a b = fl (a + b)"

definition float_sub :: "real \<Rightarrow> real \<Rightarrow> real" where
  "float_sub a b = fl (a - b)"

definition float_mul :: "real \<Rightarrow> real \<Rightarrow> real" where
  "float_mul a b = fl (a * b)"

definition float_div :: "real \<Rightarrow> real \<Rightarrow> real" where
  "float_div a b = fl (a / b)"

section \<open>Persistence and the order executor\<close>

text \<open>
  \<^verbatim>\<open>save_state\<close>: dump \<^verbatim>\<open>self.state\<close> to the file. (The write is taken to succeed; the
  source logs a failed write and goes on.)
\<close>

definition save_state :: "world \<Rightarrow> world" where
  "save_state w = w\<lparr>disk := Some (mem w)\<rparr>"

text \<open>In-place mutation of the leg dict stored under \<open>k\<close>.\<close>

definition mutate_leg :: "string \<Rightarrow> (leg \<Rightarrow> leg) \<Rightarrow> world \<Rightarrow> world" where
  "mutate_leg k f w = w\<lparr>mem := (mem w)\<lparr>legs := AList.map_entry k f (legs (mem w))\<rparr>\<rparr>"

definition log_event :: "event \<Rightarrow> world \<Rightarrow> world" where
  "log_event ev w = w\<lparr>orders := orders w @ [ev]\<rparr>"

text \<open>
  The quantity computed at the head of both \<^verbatim>\<open>execute_entry\<close> and \<^verbatim>\<open>execute_exit\<close>:
  \<^verbatim>\<open>self.state.get("instrument", ...)\<close> finds the key (it is \<^verbatim>\<open>None\<close> until strikes are
  selected), and \<^verbatim>\<open>lot_sizes[instrument]\<close> raises KeyError for an unknown instrument.
\<close>

definition order_quantity :: "settings \<Rightarrow> runtime_state \<Rightarrow> leg \<Rightarrow> error + int" where
  "order_quantity c s l =
    (case instrument s of
      None \<Rightarrow> Inl KeyError
    | Some i \<Rightarrow>
        (case lot_sizes c i of
          None \<Rightarrow> Inl KeyError
        | Some lot_size \<Rightarrow> Inr (lots l * global_lots c * lot_size)))"

text \<open>Python truthiness of an order id: \<^verbatim>\<open>None\<close> and the empty string are falsy.\<close>

definition truthy_id :: "string option \<Rightarrow> bool" where
  "truthy_id oid = (case oid of None \<Rightarrow> False | Some s \<Rightarrow> s \<noteq> [])"

text \<open>
  The local variable \<^verbatim>\<open>order_id\<close> of \<^verbatim>\<open>execute_entry\<close>: a synthesized id in paper
  trading, else what the gateway returned, \<^verbatim>\<open>None\<close> on a timeout or an exception.
\<close>

definition entry_order_id :: "env \<Rightarrow> leg \<Rightarrow> action \<Rightarrow> int \<Rightarrow> string option" where
  "entry_order_id e l a qty =
    (if paper_trading (cfg e) then Some ''PAPER_''
     else (case place_order e (symbol l) (token l) a qty of
        Returned oid \<Rightarrow> oid
      | TimedOut \<Rightarrow> None
      | Raised \<Rightarrow> None))"

definition order_event :: "env \<Rightarrow> leg \<Rightarrow> action \<Rightarrow> int \<Rightarrow> event" where
  "order_event e l a qty =
    (if paper_trading (cfg e) then PaperTrade (symbol l) (token l) a qty
     else GatewayOrder (symbol l) (token l) a qty)"

text \<open>
  \<^verbatim>\<open>execute_entry(leg_key, leg_data, price, description)\<close>; \<open>k\<close> is the key under which
  \<^verbatim>\<open>leg_data\<close> is stored (callers pass keys of the legs dict). The description is only
  logged.
\<close>

definition execute_entry :: "env \<Rightarrow> string \<Rightarrow> real \<Rightarrow> world \<Rightarrow> (error + unit) \<times> world" where
  "execute_entry e k price w =
    (case map_of (legs (mem w)) k of
      None \<Rightarrow> (Inl KeyError, w)
    | Some l \<Rightarrow>
        (case order_quantity (cfg e) (mem w) l of
          Inl err \<Rightarrow> (Inl err, w)
        | Inr qty \<Rightarrow>
            (case action l of
              None \<Rightarrow> (Inl KeyError, w)
            | Some a \<Rightarrow>
                if truthy_id (entry_order_id e l a qty)
                then (Inr (), save_state (mutate_leg k
                       (\<lambda>d. d\<lparr>status := LEG_ACTIVE,
                               entry_price := price,
                               sl_price :=
                                 (if a = BUY
                                  then float_mul price (float_sub 1 (float_div (sl_pct d) 100))
                                  else float_mul price (float_add 1 (float_div (sl_pct d) 100))),
                               entries_count := entries_count d + 1\<rparr>)
                       (log_event (order_event e l a qty) w)))
                else (Inr (), log_event (order_event e l a qty) w))))"

text \<open>
  \<^verbatim>\<open>execute_exit(leg_key, leg_data, price, reason)\<close>. The exit order goes the opposite
  way. The gateway's answer is only logged; the three assignments and the save follow
  the \<^verbatim>\<open>if/else\<close> unconditionally.
\<close>

definition execute_exit ::
  "env \<Rightarrow> string \<Rightarrow> real \<Rightarrow> exit_tag \<Rightarrow> world \<Rightarrow> (error + unit) \<times> world" where
  "execute_exit e k price reason w =
    (case map_of (legs (mem w)) k of
      None \<Rightarrow> (Inl KeyError, w)
    | Some l \<Rightarrow>
        (case order_quantity (cfg e) (mem w) l of
          Inl err \<Rightarrow> (Inl err, w)
        | Inr qty \<Rightarrow>
            (case action l of
              None \<Rightarrow> (Inl KeyError, w)
            | Some entry_action \<Rightarrow>
                (Inr (), save_state (mutate_leg k
                   (\<lambda>d. d\<lparr>status := EXITED, exit_price := Some price,
                           exit_reason := Some reason\<rparr>)
                   (log_event
                      (order_event e l (if entry_action = BUY then SELL else BUY) qty) w))))))"

section \<open>The leg monitor\<close>

text \<open>
  \<^verbatim>\<open>check_leg_logic(leg_key, leg_data)\<close>. \<^verbatim>\<open>if not current_price: return\<close> leaves on
  \<^verbatim>\<open>None\<close> and on \<open>0.0\<close>. The whole body is inside \<^verbatim>\<open>try/except Exception\<close>: an error of
  \<^verbatim>\<open>execute_entry\<close> or \<^verbatim>\<open>execute_exit\<close> is logged and the statements after the call
  are skipped.
\<close>

definition check_leg_logic :: "env \<Rightarrow> string \<Rightarrow> world \<Rightarrow> world" where
  "check_leg_logic e k w =
    (case map_of (legs (mem w)) k of
      None \<Rightarrow> w
    | Some l \<Rightarrow>
        (case option_price e (token l) of
          None \<Rightarrow> w
        | Some current_price \<Rightarrow>
            if current_price = 0 then w
            else
              (case action l of
                None \<Rightarrow> w
              | Some a \<Rightarrow>
                  if status l = WAITING_ENTRY then
                    (if current_price
                          > float_mul (range_high l)
                              (float_add 1 (float_div (entry_trigger_pct l) 100))
                     then snd (execute_entry e k current_price w)
                     else w)
                  else if status l = LEG_ACTIVE then
                    (if (if a = BUY then current_price \<le> sl_price l
                         else current_price \<ge> sl_price l)
                     then
                       (case execute_exit e k current_price SL_HIT w of
                         (Inl err, w') \<Rightarrow> w'
                       | (Inr u, w') \<Rightarrow>
                           mutate_leg k
                             (\<lambda>d. d\<lparr>status := (if entries_count d < 2 then WAITING_REENTRY
                                                else DONE)\<rparr>) w')
                     else w)
                  else if status l = WAITING_REENTRY then
                    (if current_price
                          > float_mul (range_high l)
                              (float_add 1 (float_div (reentry_trigger_pct l) 100))
                     then snd (execute_entry e k current_price w)
                     else w)
                  else w)))"

text \<open>\<^verbatim>\<open>monitor_and_execute\<close>: one \<^verbatim>\<open>check_leg_logic\<close> per leg of the dict.\<close>

definition monitor_and_execute :: "env \<Rightarrow> world \<Rightarrow> world" where
  "monitor_and_execute e w = fold (check_leg_logic e) (map fst (legs (mem w))) w"

section \<open>Gap check and daily square-off\<close>

text \<open>
  The list \<^verbatim>\<open>tasks\<close> that the loop of \<^verbatim>\<open>check_gap_condition\<close> builds: for every leg
  whose status is ACTIVE and whose live price is truthy, an exit at that price when
  \<^verbatim>\<open>current_price <= leg_data["sl_price"]\<close>.
\<close>

fun gap_tasks :: "env \<Rightarrow> (string \<times> leg) list \<Rightarrow> (string \<times> real) list" where
  "gap_tasks e [] = []"
| "gap_tasks e ((k, l) # rest) =
    (if status l = LEG_ACTIVE then
       (case option_price e (token l) of
         None \<Rightarrow> gap_tasks e rest
       | Some current_price \<Rightarrow>
           if current_price = 0 then gap_tasks e rest
           else if current_price \<le> sl_price l then (k, current_price) # gap_tasks e rest
           else gap_tasks e rest)
     else gap_tasks e rest)"

text \<open>
  \<^verbatim>\<open>await asyncio.gather(*tasks)\<close> over \<^verbatim>\<open>execute_exit\<close> coroutines: every task runs
  to its end, and the first exception raised is the one the caller sees.
\<close>

fun run_exits ::
  "env \<Rightarrow> exit_tag \<Rightarrow> (string \<times> real) list \<Rightarrow> world \<Rightarrow> (error + unit) \<times> world" where
  "run_exits e reason [] w = (Inr (), w)"
| "run_exits e reason ((k, p) # ts) w =
    (case execute_exit e k p reason w of
      (Inl err, w') \<Rightarrow> (Inl err, snd (run_exits e reason ts w'))
    | (Inr u, w') \<Rightarrow> run_exits e reason ts w')"

definition check_gap_condition :: "env \<Rightarrow> world \<Rightarrow> (error + unit) \<times> world" where
  "check_gap_condition e w = run_exits e GAP_SL_HIT (gap_tasks e (legs (mem w))) w"

text \<open>
  \<^verbatim>\<open>execute_strategy_exit\<close>: the loop queues an exit at price 0 for every ACTIVE leg and
  marks the legs waiting for an entry or a re-entry DONE; the queued exits run after it.
\<close>

definition mark_waiting_done :: "leg \<Rightarrow> leg" where
  "mark_waiting_done l =
    (if status l = LEG_ACTIVE then l
     else if status l = WAITING_ENTRY \<or> status l = WAITING_REENTRY then l\<lparr>status := DONE\<rparr>
     else l)"

definition square_off_tasks :: "(string \<times> leg) list \<Rightarrow> (string \<times> real) list" where
  "square_off_tasks ls = map (\<lambda>(k, l). (k, 0)) (filter (\<lambda>(k, l). status l = LEG_ACTIVE) ls)"

definition execute_strategy_exit :: "env \<Rightarrow> world \<Rightarrow> (error + unit) \<times> world" where
  "execute_strategy_exit e w =
    run_exits e DAILY_SQUARE_OFF (square_off_tasks (legs (mem w)))
      (w\<lparr>mem := (mem w)\<lparr>legs := map (\<lambda>(k, l). (k, mark_waiting_done l)) (legs (mem w))\<rparr>\<rparr>)"

section \<open>Clock times\<close>

text \<open>
  \<^verbatim>\<open>datetime.time(h, m)\<close> as microseconds since midnight; the constructor raises
  ValueError unless \<open>0 \<le> h \<le> 23\<close> and \<open>0 \<le> m \<le> 59\<close>.
\<close>

definition py_time :: "int \<Rightarrow> int \<Rightarrow> error + nat" where
  "py_time h m =
    (if 0 \<le> h \<and> h \<le> 23 \<and> 0 \<le> m \<and> m \<le> 59 then Inr (nat ((h * 60 + m) * 60000000))
     else Inl ValueError)"

text \<open>
  The condition of TASK 1 and of TASK 2 in \<^verbatim>\<open>start\<close>:
  \<^verbatim>\<open>current_time >= t0 and current_time < time(h, m + width)\<close>, where \<open>t0\<close> is the
  already built \<^verbatim>\<open>time(h, m)\<close>. Python's \<^verbatim>\<open>and\<close> evaluates the second operand, and so the
  constructor, only when the first holds.
\<close>

definition window_open :: "nat \<Rightarrow> nat \<Rightarrow> int \<times> int \<Rightarrow> int \<Rightarrow> error + bool" where
  "window_open current_time t0 hm width =
    (if current_time \<ge> t0 then
       (case py_time (fst hm) (snd hm + width) of
         Inl err \<Rightarrow> Inl err
       | Inr t1 \<Rightarrow> Inr (current_time < t1))
     else Inr False)"

text \<open>
  \<^verbatim>\<open>(datetime.combine(today, start_time) + timedelta(minutes=buffer_mins)).time()\<close>: the
  sum wraps around midnight.
\<close>

definition start_buffer :: "nat \<Rightarrow> int \<Rightarrow> nat" where
  "start_buffer start_time buffer_mins =
    nat ((int start_time + buffer_mins * 60000000) mod 86400000000)"

section \<open>As-of lookups (db_client.py)\<close>

text \<open>\<^verbatim>\<open>return float(val) if val else None\<close>: a null and a zero value are both falsy.\<close>

definition get_spot_price_at :: "env \<Rightarrow> string \<Rightarrow> nat \<Rightarrow> real option" where
  "get_spot_price_at e i t =
    (case spot_value_at e i t of
      None \<Rightarrow> None
    | Some val \<Rightarrow> if val = 0 then None else Some val)"

definition get_option_price_at :: "env \<Rightarrow> int \<Rightarrow> nat \<Rightarrow> real option" where
  "get_option_price_at e tok t =
    (case option_value_at e tok t of
      None \<Rightarrow> None
    | Some val \<Rightarrow> if val = 0 then None else Some val)"

section \<open>Strike selection\<close>

text \<open>\<^verbatim>\<open>sub in s\<close> on strings.\<close>

fun starts_with :: "string \<Rightarrow> string \<Rightarrow> bool" where
  "starts_with [] s = True"
| "starts_with (c # cs) [] = False"
| "starts_with (c # cs) (d # ds) = (c = d \<and> starts_with cs ds)"

fun contains :: "string \<Rightarrow> string \<Rightarrow> bool" where
  "contains sub [] = (sub = [])"
| "contains sub (c # cs) = (starts_with sub (c # cs) \<or> contains sub cs)"

text \<open>
  \<^verbatim>\<open>min(candidates, key=lambda x: abs(x['last_price'] - target_premium))\<close>: the first
  candidate of least distance; \<open>None\<close> for an empty list.
\<close>

fun closest :: "real \<Rightarrow> candidate list \<Rightarrow> candidate option" where
  "closest target [] = None"
| "closest target (c # cs) =
    (case closest target cs of
      None \<Rightarrow> Some c
    | Some b \<Rightarrow>
        if \<bar>float_sub (last_price c) target\<bar> \<le> \<bar>float_sub (last_price b) target\<bar>
        then Some c else Some b)"

text \<open>
  \<^verbatim>\<open>get_expiry(instrument, type_pref)\<close>: the argument is looked up in the instrument map
  (KeyError when absent), then the first or second active expiry is returned, \<open>None\<close> when
  there is none.
\<close>

definition get_expiry :: "env \<Rightarrow> string \<Rightarrow> string \<Rightarrow> error + string option" where
  "get_expiry e instr type_pref =
    (case instrument_map (cfg e) instr of
      None \<Rightarrow> Inl KeyError
    | Some db_instrument \<Rightarrow>
        (case active_expiries e db_instrument of
          [] \<Rightarrow> Inr None
        | x # xs \<Rightarrow>
            (case xs of
              [] \<Rightarrow> Inr (Some x)
            | y # ys \<Rightarrow> if type_pref = ''next'' then Inr (Some y) else Inr (Some x))))"

definition truthy_str :: "string option \<Rightarrow> bool" where
  "truthy_str s = (case s of None \<Rightarrow> False | Some x \<Rightarrow> x \<noteq> [])"

text \<open>The inner helper \<^verbatim>\<open>find_leg\<close> of \<^verbatim>\<open>select_strikes\<close>: (best, target premium).\<close>

definition find_leg ::
  "env \<Rightarrow> string \<Rightarrow> nat \<Rightarrow> real \<Rightarrow> real \<Rightarrow> option_type \<Rightarrow> string
    \<Rightarrow> error + (candidate option \<times> real)" where
  "find_leg e db_instrument selection_time straddle_premium target_pct opt_type type_pref =
    (case get_expiry e db_instrument type_pref of
      Inl err \<Rightarrow> Inl err
    | Inr leg_expiry \<Rightarrow>
        if \<not> truthy_str leg_expiry then Inr (None, 0)
        else Inr (closest (float_mul straddle_premium (float_div target_pct 100))
                    (available_strikes_at e db_instrument (the leg_expiry) opt_type
                       selection_time),
                  float_mul straddle_premium (float_div target_pct 100)))"

text \<open>The leg dict that \<^verbatim>\<open>select_strikes\<close> stores for a selected candidate.\<close>

definition selected_leg :: "leg_config \<Rightarrow> candidate \<Rightarrow> real \<Rightarrow> leg" where
  "selected_leg details best target_prem =
    \<lparr>strike = strike_price best, token = cand_token best, symbol = cand_symbol best,
     expiry = expiry_type details, action = Some (cfg_action details),
     ref_premium = target_prem, status = WAITING_RANGE, range_high = 0, range_low = 0,
     entry_price = 0, sl_price = 0, lots = cfg_lots details,
     sl_pct = sl_percentage details,
     entry_trigger_pct = entry_trigger_percentage details,
     reentry_trigger_pct = reentry_trigger_percentage details,
     entries_count = 0, exit_price = None, exit_reason = None\<rparr>"

text \<open>The loop \<^verbatim>\<open>for leg_key, details in legs.items()\<close> of \<^verbatim>\<open>select_strikes\<close>.\<close>

fun select_legs ::
  "env \<Rightarrow> string \<Rightarrow> nat \<Rightarrow> real \<Rightarrow> (string \<times> leg_config) list \<Rightarrow> world
    \<Rightarrow> (error + unit) \<times> world" where
  "select_legs e db_instrument selection_time straddle [] w = (Inr (), w)"
| "select_legs e db_instrument selection_time straddle ((leg_key, details) # rest) w =
    (case find_leg e db_instrument selection_time straddle (percentage_of_straddle details)
            (if contains ''ce'' leg_key then CE else PE) (expiry_type details) of
      Inl err \<Rightarrow> (Inl err, w)
    | Inr (best_strike, target_prem) \<Rightarrow>
        (case best_strike of
          None \<Rightarrow> select_legs e db_instrument selection_time straddle rest w
        | Some best \<Rightarrow>
            select_legs e db_instrument selection_time straddle rest
              (w\<lparr>mem := (mem w)\<lparr>legs :=
                 AList.update leg_key (selected_leg details best target_prem)
                   (legs (mem w))\<rparr>\<rparr>)))"

text \<open>
  The premium lookup \<^verbatim>\<open>get_option_price_at(tok, t) if tok else None\<close>: a token that is
  \<^verbatim>\<open>None\<close> or 0 is falsy.
\<close>

definition premium_at :: "env \<Rightarrow> int option \<Rightarrow> nat \<Rightarrow> real option" where
  "premium_at e tok t =
    (case tok of
      None \<Rightarrow> None
    | Some n \<Rightarrow> if n = 0 then None else get_option_price_at e n t)"

text \<open>
  \<^verbatim>\<open>select_strikes\<close>. The instrument is stored in the state before the spot price is
  fetched. \<open>Inr False\<close> and \<open>Inr True\<close> are the two return values.
\<close>

definition select_strikes :: "env \<Rightarrow> world \<Rightarrow> (error + bool) \<times> world" where
  "select_strikes e w =
    (case py_time (fst (range_start (cfg e))) (snd (range_start (cfg e))) of
      Inl err \<Rightarrow> (Inl err, w)
    | Inr start \<Rightarrow>
        (case instrument_map (cfg e) (cfg_instrument (cfg e)) of
          None \<Rightarrow> (Inl KeyError, w\<lparr>mem := (mem w)\<lparr>instrument := Some (cfg_instrument (cfg e))\<rparr>\<rparr>)
        | Some db_instrument \<Rightarrow>
            (case get_spot_price_at e (cfg_instrument (cfg e)) (min (now e) start) of
              None \<Rightarrow> (Inr False, w\<lparr>mem := (mem w)\<lparr>instrument := Some (cfg_instrument (cfg e))\<rparr>\<rparr>)
            | Some spot_price \<Rightarrow>
                if spot_price = 0
                then (Inr False, w\<lparr>mem := (mem w)\<lparr>instrument := Some (cfg_instrument (cfg e))\<rparr>\<rparr>)
                else if strike_step (cfg e) = 0
                then (Inl ZeroDivisionError,
                      w\<lparr>mem := (mem w)\<lparr>instrument := Some (cfg_instrument (cfg e))\<rparr>\<rparr>)
                else
                  (case get_expiry e db_instrument ''current'' of
                    Inl err \<Rightarrow>
                      (Inl err, w\<lparr>mem := (mem w)\<lparr>instrument := Some (cfg_instrument (cfg e))\<rparr>\<rparr>)
                  | Inr current_expiry \<Rightarrow>
                      if \<not> truthy_str current_expiry
                      then (Inr False,
                            w\<lparr>mem := (mem w)\<lparr>instrument := Some (cfg_instrument (cfg e))\<rparr>\<rparr>)
                      else
                        (case (premium_at e
                                 (token_for_strike e db_instrument
                                    (float_mul
                                       (fl (of_int (py_round
                                          (float_div spot_price (strike_step (cfg e))))))
                                       (strike_step (cfg e)))
                                    CE (the current_expiry))
                                 (min (now e) start),
                               premium_at e
                                 (token_for_strike e db_instrument
                                    (float_mul
                                       (fl (of_int (py_round
                                          (float_div spot_price (strike_step (cfg e))))))
                                       (strike_step (cfg e)))
                                    PE (the current_expiry))
                                 (min (now e) start)) of
                          (Some ce_data, Some pe_data) \<Rightarrow>
                            (case select_legs e db_instrument (min (now e) start)
                                    (float_add ce_data pe_data) (leg_configs (cfg e))
                                    (w\<lparr>mem := (mem w)\<lparr>instrument :=
                                        Some (cfg_instrument (cfg e))\<rparr>\<rparr>) of
                              (Inl err, w') \<Rightarrow> (Inl err, w')
                            | (Inr u, w') \<Rightarrow> (Inr True, w'))
                        | _ \<Rightarrow>
                            (Inr False,
                             w\<lparr>mem := (mem w)\<lparr>instrument :=
                                 Some (cfg_instrument (cfg e))\<rparr>\<rparr>))))))"

section \<open>Range finalization\<close>

definition finalize_leg :: "env \<Rightarrow> nat \<Rightarrow> leg \<Rightarrow> leg" where
  "finalize_leg e start_dt l =
    (if status l = DONE then l
     else
       (case range_high_low e (token l) start_dt (now e) of
         None \<Rightarrow> l
       | Some (high, low) \<Rightarrow>
           l\<lparr>range_high := high, range_low := low, status := WAITING_ENTRY\<rparr>))"

text \<open>\<^verbatim>\<open>finalize_ranges\<close>; the result is \<^verbatim>\<open>success_count > 0\<close>.\<close>

definition finalize_ranges :: "env \<Rightarrow> world \<Rightarrow> (error + bool) \<times> world" where
  "finalize_ranges e w =
    (case py_time (fst (range_start (cfg e))) (snd (range_start (cfg e))) of
      Inl err \<Rightarrow> (Inl err, w)
    | Inr start_dt \<Rightarrow>
        (Inr (filter (\<lambda>(k, l). status l \<noteq> DONE
                       \<and> range_high_low e (token l) start_dt (now e) \<noteq> None)
                (legs (mem w)) \<noteq> []),
         w\<lparr>mem := (mem w)\<lparr>legs :=
             map (\<lambda>(k, l). (k, finalize_leg e start_dt l)) (legs (mem w))\<rparr>\<rparr>))"

section \<open>The control loop\<close>

text \<open>
  The body of the \<^verbatim>\<open>while True\<close> loop of \<^verbatim>\<open>start\<close>, one definition per commented
  task. An exception leaves the \<^verbatim>\<open>try\<close> block at once (\<open>Inl\<close>); the state keeps what was
  written before.
\<close>

text \<open>TASK 1: the gap check, between the check time and the end of its window.\<close>

definition task_gap_check :: "env \<Rightarrow> nat \<Rightarrow> world \<Rightarrow> (error + unit) \<times> world" where
  "task_gap_check e check_time w =
    (case window_open (now e) check_time (check_condition (cfg e))
            (gap_check_window_minutes (cfg e)) of
      Inl err \<Rightarrow> (Inl err, w)
    | Inr due \<Rightarrow> if due then check_gap_condition e w else (Inr (), w))"

text \<open>
  TASK 2: the daily cleanup. Inside its window and unless the phase is IDLE: square off,
  then reset the state and save it.
\<close>

definition task_daily_exit :: "env \<Rightarrow> nat \<Rightarrow> world \<Rightarrow> (error + unit) \<times> world" where
  "task_daily_exit e exit_time w =
    (case window_open (now e) exit_time (strategy_exit (cfg e))
            (exit_check_window_minutes (cfg e)) of
      Inl err \<Rightarrow> (Inl err, w)
    | Inr due \<Rightarrow>
        if due \<and> phase (mem w) \<noteq> IDLE then
          (case execute_strategy_exit e w of
            (Inl err, w') \<Rightarrow> (Inl err, w')
          | (Inr u, w') \<Rightarrow>
              (Inr (), save_state (w'\<lparr>mem := (mem w')\<lparr>phase := IDLE, legs := [],
                                       exit_triggered := False,
                                       selected_expiry := None\<rparr>\<rparr>)))
        else (Inr (), w))"

text \<open>TASK 3: strike selection inside the start buffer, while the phase is IDLE.\<close>

definition task_start :: "env \<Rightarrow> nat \<Rightarrow> world \<Rightarrow> (error + unit) \<times> world" where
  "task_start e start_time w =
    (if now e \<ge> start_time \<and> now e < start_buffer start_time (buffer_minutes (cfg e))
        \<and> phase (mem w) = IDLE then
       (case select_strikes e w of
         (Inl err, w') \<Rightarrow> (Inl err, w')
       | (Inr success, w') \<Rightarrow>
           if success then (Inr (), save_state (w'\<lparr>mem := (mem w')\<lparr>phase := MONITORING_RANGE\<rparr>\<rparr>))
           else (Inr (), w'))
     else (Inr (), w))"

text \<open>TASK 4: at the end of the range, lock the ranges and go ACTIVE.\<close>

definition task_range_end :: "env \<Rightarrow> nat \<Rightarrow> world \<Rightarrow> (error + unit) \<times> world" where
  "task_range_end e end_time w =
    (if phase (mem w) = MONITORING_RANGE \<and> now e \<ge> end_time then
       (case finalize_ranges e w of
         (Inl err, w') \<Rightarrow> (Inl err, w')
       | (Inr b, w') \<Rightarrow> (Inr (), save_state (w'\<lparr>mem := (mem w')\<lparr>phase := ACTIVE\<rparr>\<rparr>)))
     else (Inr (), w))"

text \<open>TASK 5: one round of leg monitoring while the phase is ACTIVE.\<close>

definition task_monitor :: "env \<Rightarrow> world \<Rightarrow> (error + unit) \<times> world" where
  "task_monitor e w =
    (if phase (mem w) = ACTIVE then (Inr (), monitor_and_execute e w) else (Inr (), w))"

text \<open>The tasks in their fixed order, each on the world the one before left.\<close>

definition run_tasks :: "env \<Rightarrow> nat \<Rightarrow> nat \<Rightarrow> nat \<Rightarrow> nat \<Rightarrow> world \<Rightarrow> (error + unit) \<times> world" where
  "run_tasks e start_time end_time check_time exit_time w =
    (case task_gap_check e check_time w of
      (Inl err, w1) \<Rightarrow> (Inl err, w1)
    | (Inr u1, w1) \<Rightarrow>
        (case task_daily_exit e exit_time w1 of
          (Inl err, w2) \<Rightarrow> (Inl err, w2)
        | (Inr u2, w2) \<Rightarrow>
            (case task_start e start_time w2 of
              (Inl err, w3) \<Rightarrow> (Inl err, w3)
            | (Inr u3, w3) \<Rightarrow>
                (case task_range_end e end_time w3 of
                  (Inl err, w4) \<Rightarrow> (Inl err, w4)
                | (Inr u4, w4) \<Rightarrow> task_monitor e w4))))"

text \<open>
  One iteration: nothing while the run flag is off; the four \<^verbatim>\<open>time(h, m)\<close> objects are
  built (start, end, check, exit, in this order) before any task runs.
\<close>

definition tick :: "env \<Rightarrow> world \<Rightarrow> (error + unit) \<times> world" where
  "tick e w =
    (if \<not> is_running (cfg e) then (Inr (), w)
     else
       (case py_time (fst (range_start (cfg e))) (snd (range_start (cfg e))) of
         Inl err \<Rightarrow> (Inl err, w)
       | Inr start_time \<Rightarrow>
           (case py_time (fst (range_end (cfg e))) (snd (range_end (cfg e))) of
             Inl err \<Rightarrow> (Inl err, w)
           | Inr end_time \<Rightarrow>
               (case py_time (fst (check_condition (cfg e))) (snd (check_condition (cfg e))) of
                 Inl err \<Rightarrow> (Inl err, w)
               | Inr check_time \<Rightarrow>
                   (case py_time (fst (strategy_exit (cfg e))) (snd (strategy_exit (cfg e))) of
                     Inl err \<Rightarrow> (Inl err, w)
                   | Inr exit_time \<Rightarrow>
                       run_tasks e start_time end_time check_time exit_time w)))))"

section \<open>Process start\<close>

text \<open>The state that \<^verbatim>\<open>__init__\<close> creates.\<close>

definition initial_state :: runtime_state where
  "initial_state =
    \<lparr>phase = IDLE, legs = [], selected_expiry = None, exit_triggered = False,
     instrument = None\<rparr>"

text \<open>The placeholder leg that \<^verbatim>\<open>start\<close> writes; the fields of absent keys are inert.\<close>

definition placeholder_leg :: "int \<Rightarrow> leg" where
  "placeholder_leg n =
    \<lparr>strike = 0, token = 0, symbol = ''Waiting...'', expiry = [], action = None,
     ref_premium = 0, status = LEG_IDLE, range_high = 0, range_low = 0, entry_price = 0,
     sl_price = 0, lots = n, sl_pct = 0, entry_trigger_pct = 0, reentry_trigger_pct = 0,
     entries_count = 0, exit_price = None, exit_reason = None\<rparr>"

text \<open>\<^verbatim>\<open>load_state\<close>: the file replaces the in-memory state when it exists.\<close>

definition load_state :: "world \<Rightarrow> world" where
  "load_state w = (case disk w of None \<Rightarrow> w | Some s \<Rightarrow> w\<lparr>mem := s\<rparr>)"

text \<open>
  A process start on the given disk and order history: \<^verbatim>\<open>__init__\<close>, \<^verbatim>\<open>load_state\<close>, and
  the placeholder legs when the legs dict is empty.
\<close>

definition startup :: "settings \<Rightarrow> world \<Rightarrow> world" where
  "startup c w =
    (if legs (mem (load_state (w\<lparr>mem := initial_state\<rparr>))) = []
     then (load_state (w\<lparr>mem := initial_state\<rparr>))
            \<lparr>mem := (mem (load_state (w\<lparr>mem := initial_state\<rparr>)))
               \<lparr>legs := map (\<lambda>(k, d). (k, placeholder_leg (cfg_lots d))) (leg_configs c)\<rparr>\<rparr>
     else load_state (w\<lparr>mem := initial_state\<rparr>))"

text \<open>
  The worlds the engine can be in between two iterations: after a first start on an empty
  disk, after an iteration, and after a restart of the process. The legs of the
  configuration are a dict: no key occurs twice.
\<close>

inductive reachable :: "world \<Rightarrow> bool" where
  boot: "distinct (map fst (leg_configs c))
    \<Longrightarrow> reachable (startup c \<lparr>mem = initial_state, disk = None, orders = []\<rparr>)"
| step: "reachable w \<Longrightarrow> reachable (snd (tick e w))"
| restart: "reachable w \<Longrightarrow> distinct (map fst (leg_configs c)) \<Longrightarrow> reachable (startup c w)"

section \<open>Example inputs\<close>

text \<open>
  Concrete inputs for the instances below, after the values of the repository's
  \<^verbatim>\<open>test_verification.py\<close>: instrument NIFTY BANK, lot size 15, one leg \<^verbatim>\<open>sp10ce\<close> with
  5 lots, stop-loss 20 percent and both triggers 10 percent; live trading.
\<close>

definition demo_leg_config :: "action \<Rightarrow> leg_config" where
  "demo_leg_config a =
    \<lparr>cfg_lots = 5, percentage_of_straddle = 10, expiry_type = ''current'', cfg_action = a,
     sl_percentage = 20, entry_trigger_percentage = 10, reentry_trigger_percentage = 10\<rparr>"

definition demo_settings :: "action \<Rightarrow> settings" where
  "demo_settings a =
    \<lparr>is_running = True, paper_trading = False, cfg_instrument = ''NIFTY BANK'',
     strike_step = 100, global_lots = 1,
     lot_sizes = (\<lambda>i. if i = ''NIFTY BANK'' then Some 15 else None),
     instrument_map =
       (\<lambda>i. if i = ''NIFTY BANK'' \<or> i = ''BANKNIFTY'' then Some ''BANKNIFTY'' else None),
     range_start = (9, 30), range_end = (10, 30), check_condition = (9, 16),
     strategy_exit = (9, 22), buffer_minutes = 5, gap_check_window_minutes = 5,
     exit_check_window_minutes = 5, leg_configs = [(''sp10ce'', demo_leg_config a)]\<rparr>"

definition demo_candidate :: "real \<Rightarrow> real \<Rightarrow> candidate" where
  "demo_candidate s p =
    \<lparr>strike_price = s, last_price = p, cand_token = 12345,
     cand_symbol = ''BANKNIFTY26JAN59400CE''\<rparr>"

text \<open>
  An environment at clock time \<open>t\<close> in which every live option price is \<open>price\<close> and the
  gateway answers every order with \<open>r\<close>.
\<close>

definition demo_env :: "action \<Rightarrow> nat \<Rightarrow> real option \<Rightarrow> reply \<Rightarrow> env" where
  "demo_env a t price r =
    \<lparr>cfg = demo_settings a, now = t, option_price = (\<lambda>tok. price),
     place_order = (\<lambda>sym tok act qty. r),
     range_high_low = (\<lambda>tok t0 t1. Some (250, 150)),
     spot_value_at = (\<lambda>i ts. Some 59137),
     option_value_at = (\<lambda>tok ts. Some 250),
     active_expiries = (\<lambda>i. [''26JAN'']),
     token_for_strike = (\<lambda>i s ot x. Some 12345),
     available_strikes_at =
       (\<lambda>i x ot ts. [demo_candidate 59500 40, demo_candidate 59400 48,
                      demo_candidate 59300 70])\<rparr>"

text \<open>
  A leg with range high 250 that was entered once at 200: its stop-loss is 160 as a BUY
  leg and 240 as a SELL leg.
\<close>

definition demo_leg :: "action \<Rightarrow> leg_status \<Rightarrow> nat \<Rightarrow> leg" where
  "demo_leg a st n =
    \<lparr>strike = 59400, token = 12345, symbol = ''BANKNIFTY26JAN59400CE'',
     expiry = ''current'', action = Some a, ref_premium = 50, status = st,
     range_high = 250, range_low = 150, entry_price = 200,
     sl_price = (if a = BUY then 160 else 240), lots = 5, sl_pct = 20,
     entry_trigger_pct = 10, reentry_trigger_pct = 10, entries_count = n,
     exit_price = None, exit_reason = None\<rparr>"

definition demo_state :: "action \<Rightarrow> leg_status \<Rightarrow> nat \<Rightarrow> runtime_state" where
  "demo_state a st n =
    \<lparr>phase = ACTIVE, legs = [(''sp10ce'', demo_leg a st n)], selected_expiry = None,
     exit_triggered = False, instrument = Some ''NIFTY BANK''\<rparr>"

text \<open>A world whose file holds the very state that is in memory.\<close>

definition demo_world :: "action \<Rightarrow> leg_status \<Rightarrow> nat \<Rightarrow> world" where
  "demo_world a st n =
    \<lparr>mem = demo_state a st n, disk = Some (demo_state a st n), orders = []\<rparr>"

text \<open>11:00:00 as a clock time.\<close>

definition eleven :: nat where
  "eleven = 39600000000"

text \<open>
  A day of the engine on these inputs: the first start, then iterations at 09:31 (strike
  selection), 10:30 (range end) and 11:00 with live prices 280, 220, 280, 220 (entry,
  stop-loss, re-entry, second stop-loss). \<open>demo_run_world\<close> is a world with one leg, as
  held in memory and as held in the file.
\<close>

text \<open>The engine after its first start.\<close>

definition demo_boot :: world where
  "demo_boot = startup (demo_settings BUY) \<lparr>mem = initial_state, disk = None, orders = []\<rparr>"

text \<open>One iteration with a gateway that accepts every order.\<close>

definition demo_tick :: "nat \<Rightarrow> real option \<Rightarrow> world \<Rightarrow> world" where
  "demo_tick t price w = snd (tick (demo_env BUY t price (Returned (Some ''1000001''))) w)"

definition demo_run_world :: "phase \<Rightarrow> leg \<Rightarrow> leg \<Rightarrow> event list \<Rightarrow> world" where
  "demo_run_world ph lm ld evs =
    \<lparr>mem = \<lparr>phase = ph, legs = [(''sp10ce'', lm)], selected_expiry = None,
            exit_triggered = False, instrument = Some ''NIFTY BANK''\<rparr>,
     disk = Some \<lparr>phase = ph, legs = [(''sp10ce'', ld)], selected_expiry = None,
            exit_triggered = False, instrument = Some ''NIFTY BANK''\<rparr>,
     orders = evs\<rparr>"

text \<open>The leg after an entry at 280: stop-loss 224.\<close>

definition demo_entered :: "nat \<Rightarrow> leg" where
  "demo_entered n = (demo_leg BUY LEG_ACTIVE n)\<lparr>entry_price := 280, sl_price := 224\<rparr>"

definition demo_buy_order :: event where
  "demo_buy_order = GatewayOrder ''BANKNIFTY26JAN59400CE'' 12345 BUY 75"

definition demo_sell_order :: event where
  "demo_sell_order = GatewayOrder ''BANKNIFTY26JAN59400CE'' 12345 SELL 75"

text \<open>The world after the daily reset that follows the second entry.\<close>

definition demo_after_reset :: world where
  "demo_after_reset =
    \<lparr>mem = \<lparr>phase = IDLE, legs = [], selected_expiry = None, exit_triggered = False,
            instrument = Some ''NIFTY BANK''\<rparr>,
     disk = Some \<lparr>phase = IDLE, legs = [], selected_expiry = None, exit_triggered = False,
            instrument = Some ''NIFTY BANK''\<rparr>,
     orders = [demo_buy_order, demo_sell_order, demo_buy_order, demo_sell_order]\<rparr>"

section \<open>Invariants\<close>

text \<open>
  What the entry counter of a leg can be in each status: no entry yet before the first
  trigger, at most one while waiting for the re-entry, at most two otherwise.
\<close>

definition leg_inv :: "leg \<Rightarrow> bool" where
  "leg_inv l =
    (if status l = LEG_IDLE \<or> status l = WAITING_RANGE \<or> status l = WAITING_ENTRY
     then entries_count l = 0
     else if status l = WAITING_REENTRY then entries_count l \<le> 1
     else entries_count l \<le> 2)"

text \<open>A leg as strike selection or the placeholder loop leaves it.\<close>

definition fresh_leg :: "leg \<Rightarrow> bool" where
  "fresh_leg l = (entries_count l = 0 \<and> (status l = LEG_IDLE \<or> status l = WAITING_RANGE))"

text \<open>
  The legs dict has one entry per key, the counters are bounded, and before the phase is
  ACTIVE every leg is fresh.
\<close>

definition state_inv :: "runtime_state \<Rightarrow> bool" where
  "state_inv s =
    (distinct (map fst (legs s))
     \<and> list_all (\<lambda>(k, l). leg_inv l) (legs s)
     \<and> (phase s = ACTIVE \<or> list_all (\<lambda>(k, l). fresh_leg l) (legs s)))"

definition world_inv :: "world \<Rightarrow> bool" where
  "world_inv w = (state_inv (mem w) \<and> (case disk w of None \<Rightarrow> True | Some d \<Rightarrow> state_inv d))"

text \<open>
  The condition under which TASK 2 of an iteration is inside its window: the exit time is
  a valid clock time and the window test holds.
\<close>

definition daily_exit_due :: "env \<Rightarrow> bool" where
  "daily_exit_due e =
    (case py_time (fst (strategy_exit (cfg e))) (snd (strategy_exit (cfg e))) of
      Inl err \<Rightarrow> False
    | Inr exit_time \<Rightarrow>
        window_open (now e) exit_time (strategy_exit (cfg e))
          (exit_check_window_minutes (cfg e)) = Inr True)"

text \<open>
  \<open>ev\<close> is the exit order of the leg stored under \<open>k\<close> in \<open>w\<close>: the order
  \<^verbatim>\<open>execute_exit\<close> places for it, in the opposite direction and with its quantity.
\<close>

definition exit_order_of :: "env \<Rightarrow> world \<Rightarrow> string \<Rightarrow> event \<Rightarrow> bool" where
  "exit_order_of e w k ev =
    (case map_of (legs (mem w)) k of
      None \<Rightarrow> False
    | Some l \<Rightarrow>
        (case action l of
          None \<Rightarrow> False
        | Some a \<Rightarrow>
            (case order_quantity (cfg e) (mem w) l of
              Inl err \<Rightarrow> False
            | Inr qty \<Rightarrow> ev = order_event e l (if a = BUY then SELL else BUY) qty)))"

section \<open>Basic facts\<close>

lemmas demo_defs = demo_world_def demo_state_def demo_leg_def demo_env_def demo_settings_def
  demo_leg_config_def demo_candidate_def eleven_def

lemmas exec_defs = execute_exit_def execute_entry_def order_quantity_def order_event_def
  entry_order_id_def truthy_id_def save_state_def mutate_leg_def log_event_def

lemmas fl_eval = fl_def binary_exponent_def expo_up.simps expo_down.simps pow2_def
  py_round_def float_add_def float_sub_def float_mul_def float_div_def

text \<open>
  Values of the double arithmetic. The first groups are exact; the last shows results that
  differ from the exact product: Python prints them as \<^verbatim>\<open>110.00000000000001\<close> and
  \<^verbatim>\<open>229.99999999999997\<close>.
\<close>

lemma stop_loss_values:
  "float_mul 200 (float_sub 1 (float_div 20 100)) = 160"
  "float_mul 200 (float_add 1 (float_div 20 100)) = 240"
  "float_mul 280 (float_sub 1 (float_div 20 100)) = 224"
  "float_mul 300 (float_add 1 (float_div 20 100)) = 360"
  by (simp_all add: fl_eval)

lemma trigger_values:
  "float_mul 250 (float_add 1 (float_div 10 100)) = 275"
  "fl (27499 / 100) = 1209418810088489 / 4398046511104"
  by (simp_all add: fl_eval)

lemma selection_values:
  "float_mul (fl (of_int (py_round (float_div 59137 100)))) 100 = 59100"
  "float_add 250 250 = 500"
  "float_mul 500 (float_div 10 100) = 50"
  "float_sub 40 50 = - 10"
  "float_sub 48 50 = - 2"
  "float_sub 70 50 = 20"
  by (simp_all add: fl_eval)

lemma rounded_values:
  "float_mul 100 (float_add 1 (float_div 10 100)) = 7740561859543041 / 70368744177664"
  "float_mul 200 (float_add 1 (float_div 15 100)) = 8092405580431359 / 35184372088832"
  by (simp_all add: fl_eval)

lemma map_of_mutate_leg:
  "map_of (legs (mem (mutate_leg k f w))) k' =
     (if k' = k then map_option f (map_of (legs (mem w)) k) else map_of (legs (mem w)) k')"
  by (simp add: mutate_leg_def AList.map_of_map_entry split: option.splits)

lemma mem_save_state [simp]: "mem (save_state w) = mem w"
  by (simp add: save_state_def)

lemma mem_log_event [simp]: "mem (log_event ev w) = mem w"
  by (simp add: log_event_def)

section \<open>Order placement failure (C1)\<close>

text \<open>
  On the entry path a failed placement mutates nothing of the state: when the order id is
  falsy, \<^verbatim>\<open>execute_entry\<close> leaves memory and file as they were.
\<close>

lemma execute_entry_failure_unmutated:
  assumes "map_of (legs (mem w)) k = Some l"
    and "action l = Some a"
    and "order_quantity (cfg e) (mem w) l = Inr qty"
    and "\<not> truthy_id (entry_order_id e l a qty)"
  shows "mem (snd (execute_entry e k p w)) = mem w \<and> disk (snd (execute_entry e k p w)) = disk w"
  using assms by (simp add: execute_entry_def log_event_def)

text \<open>
  Claim C1 says that a failed or timed-out placement leaves the leg unmutated on the exit
  path as well. The code does otherwise: \<^verbatim>\<open>execute_exit\<close> sets status, exit price and
  exit reason after the \<^verbatim>\<open>try\<close> block whatever the gateway answered. Here the gateway
  times out on the exit order of an ACTIVE BUY leg (stop-loss 160, live price 150); the
  call returns normally and the leg is EXITED at 150 with reason SL_HIT, in memory and in
  the file.
\<close>

theorem exit_failure_still_marks_exited:
  "place_order (demo_env BUY eleven (Some 150) TimedOut)
       ''BANKNIFTY26JAN59400CE'' 12345 SELL 75 = TimedOut
   \<and> map_option status (map_of (legs (mem (demo_world BUY LEG_ACTIVE 1))) ''sp10ce'')
       = Some LEG_ACTIVE
   \<and> fst (execute_exit (demo_env BUY eleven (Some 150) TimedOut) ''sp10ce'' 150 SL_HIT
            (demo_world BUY LEG_ACTIVE 1)) = Inr ()
   \<and> orders (snd (execute_exit (demo_env BUY eleven (Some 150) TimedOut) ''sp10ce'' 150
                    SL_HIT (demo_world BUY LEG_ACTIVE 1)))
       = [GatewayOrder ''BANKNIFTY26JAN59400CE'' 12345 SELL 75]
   \<and> map_option (\<lambda>l. (status l, exit_price l, exit_reason l))
        (map_of (legs (mem (snd (execute_exit (demo_env BUY eleven (Some 150) TimedOut)
                                   ''sp10ce'' 150 SL_HIT (demo_world BUY LEG_ACTIVE 1)))))
           ''sp10ce'')
       = Some (EXITED, Some 150, Some SL_HIT)
   \<and> disk (snd (execute_exit (demo_env BUY eleven (Some 150) TimedOut) ''sp10ce'' 150
                  SL_HIT (demo_world BUY LEG_ACTIVE 1)))
       = Some (mem (snd (execute_exit (demo_env BUY eleven (Some 150) TimedOut) ''sp10ce''
                           150 SL_HIT (demo_world BUY LEG_ACTIVE 1))))"
  by (simp add: demo_defs exec_defs)

section \<open>Persistence of the stop-loss transition (C2)\<close>

text \<open>
  Claim C2 says that every status change is saved before the next one, the stop-loss
  transition to WAITING_REENTRY or DONE in particular. In \<^verbatim>\<open>check_leg_logic\<close> the status
  assignment that follows \<^verbatim>\<open>execute_exit\<close> is not followed by a save: after the
  stop-loss of a BUY leg entered once (stop-loss 160, live price 150) memory holds
  WAITING_REENTRY while the file holds EXITED, so the file differs from memory.
\<close>

theorem stop_loss_transition_not_saved:
  "map_option status
      (map_of (legs (mem (check_leg_logic
                            (demo_env BUY eleven (Some 150) (Returned (Some ''1000001'')))
                            ''sp10ce'' (demo_world BUY LEG_ACTIVE 1)))) ''sp10ce'')
     = Some WAITING_REENTRY
   \<and> map_option (\<lambda>s. map_option status (map_of (legs s) ''sp10ce''))
        (disk (check_leg_logic
                 (demo_env BUY eleven (Some 150) (Returned (Some ''1000001'')))
                 ''sp10ce'' (demo_world BUY LEG_ACTIVE 1)))
     = Some (Some EXITED)
   \<and> disk (check_leg_logic (demo_env BUY eleven (Some 150) (Returned (Some ''1000001'')))
             ''sp10ce'' (demo_world BUY LEG_ACTIVE 1))
     \<noteq> Some (mem (check_leg_logic
                     (demo_env BUY eleven (Some 150) (Returned (Some ''1000001'')))
                     ''sp10ce'' (demo_world BUY LEG_ACTIVE 1)))"
  by (simp add: demo_defs exec_defs check_leg_logic_def)

section \<open>The gap check (C3)\<close>

text \<open>
  For a BUY leg the gap check queues the exit exactly when the (truthy) live price is at
  or below the stop-loss.
\<close>

lemma gap_tasks_single:
  assumes "status l = LEG_ACTIVE" and "option_price e (token l) = Some p" and "p \<noteq> 0"
  shows "gap_tasks e [(k, l)] = (if p \<le> sl_price l then [(k, p)] else [])"
  using assms by simp

text \<open>
  Claim C3 says that the gap check exits a SELL leg exactly when the price is at or above
  its stop-loss. \<^verbatim>\<open>check_gap_condition\<close> compares \<^verbatim>\<open>current_price <= sl_price\<close> for
  every leg, whatever its direction (\<^verbatim>\<open>check_leg_logic\<close> distinguishes BUY and SELL). A
  SELL leg with stop-loss 240 is exited with GAP_SL_HIT at a live price of 210, which has
  not breached the stop, and is left ACTIVE at a live price of 250, which has.
\<close>

theorem gap_check_ignores_direction:
  "map_option (\<lambda>l. (action l, status l, sl_price l))
      (map_of (legs (mem (demo_world SELL LEG_ACTIVE 1))) ''sp10ce'')
     = Some (Some SELL, LEG_ACTIVE, 240)
   \<and> map_option (\<lambda>l. (status l, exit_price l, exit_reason l))
        (map_of (legs (mem (snd (check_gap_condition
                                   (demo_env SELL eleven (Some 210) (Returned (Some ''1'')))
                                   (demo_world SELL LEG_ACTIVE 1))))) ''sp10ce'')
     = Some (EXITED, Some 210, Some GAP_SL_HIT)
   \<and> check_gap_condition (demo_env SELL eleven (Some 250) (Returned (Some ''1'')))
        (demo_world SELL LEG_ACTIVE 1)
     = (Inr (), demo_world SELL LEG_ACTIVE 1)"
  by (simp add: demo_defs exec_defs check_gap_condition_def)

section \<open>The time windows (C6)\<close>

text \<open>
  While the minute count stays inside the hour, the window test of TASK 1 and TASK 2 is
  membership in the half-open interval of \<open>width\<close> minutes from the check time.
\<close>

lemma window_open_within_hour:
  assumes "0 \<le> h" and "h \<le> 23" and "0 \<le> m" and "0 \<le> width" and "m + width \<le> 59"
    and "py_time h m = Inr t0"
  shows "window_open t t0 (h, m) width
           = Inr (t0 \<le> t \<and> int t < int t0 + width * 60000000)"
proof -
  have t0: "t0 = nat ((h * 60 + m) * 60000000)"
    using assms by (simp add: py_time_def split: if_splits)
  have nonneg: "0 \<le> (h * 60 + m) * 60000000"
    using assms by simp
  have t1: "py_time h (m + width) = Inr (nat ((h * 60 + (m + width)) * 60000000))"
    using assms by (simp add: py_time_def)
  have "int (nat ((h * 60 + (m + width)) * 60000000)) = int t0 + width * 60000000"
    using assms t0 nonneg by (simp add: algebra_simps)
  then have "(t < nat ((h * 60 + (m + width)) * 60000000))
               = (int t < int t0 + width * 60000000)"
    by linarith
  then show ?thesis
    by (simp add: window_open_def t1)
qed

text \<open>
  Claim C6 says that the gap check and the daily exit run throughout their windows also
  when the window carries the minute count past the end of the hour. The code builds the
  end of the window as \<^verbatim>\<open>time(h, m + width)\<close>, which raises ValueError once
  \<open>m + width\<close> exceeds 59 (the start buffer of TASK 3 is computed with a timedelta and
  wraps correctly). With the check time 09:58 and a window of 5 minutes, at 09:59:00,
  inside the window, the gap check does not run: the iteration ends with ValueError and
  the ACTIVE BUY leg whose price 150 is below its stop-loss 160 is left as it was. The
  same happens to the daily exit with the exit time 15:58.
\<close>

theorem window_past_the_hour_raises:
  "py_time 9 58 = Inr 35880000000
   \<and> (35880000000::nat) \<le> 35940000000 \<and> (35940000000::nat) < 35880000000 + 5 * 60000000
   \<and> window_open 35940000000 35880000000 (9, 58) 5 = Inl ValueError
   \<and> tick ((demo_env BUY 35940000000 (Some 150) (Returned (Some ''1'')))
             \<lparr>cfg := (demo_settings BUY)\<lparr>check_condition := (9, 58)\<rparr>\<rparr>)
        (demo_world BUY LEG_ACTIVE 1)
     = (Inl ValueError, demo_world BUY LEG_ACTIVE 1)
   \<and> py_time 15 58 = Inr 57480000000
   \<and> (57480000000::nat) \<le> 57540000000 \<and> (57540000000::nat) < 57480000000 + 5 * 60000000
   \<and> task_daily_exit ((demo_env BUY 57540000000 (Some 150) (Returned (Some ''1'')))
             \<lparr>cfg := (demo_settings BUY)\<lparr>strategy_exit := (15, 58)\<rparr>\<rparr>)
        57480000000 (demo_world BUY LEG_ACTIVE 1)
     = (Inl ValueError, demo_world BUY LEG_ACTIVE 1)"
  by (simp add: demo_defs py_time_def window_open_def tick_def run_tasks_def
      task_gap_check_def task_daily_exit_def)

section \<open>Strike selection without a spot price (C4)\<close>

text \<open>
  Claim C4 says that \<^verbatim>\<open>select_strikes\<close> returns false and mutates no part of the state,
  the instrument field included, when the spot price at the selection time is
  unavailable. The code stores the configured instrument in the state before it fetches
  the spot price: on a freshly started engine, whose instrument field is \<^verbatim>\<open>None\<close>, the
  failed call returns false and leaves the field set to NIFTY BANK.
\<close>

theorem select_strikes_counterexample:
  "get_spot_price_at ((demo_env BUY 34260000000 None TimedOut)\<lparr>spot_value_at := (\<lambda>i ts. None)\<rparr>)
      ''NIFTY BANK'' (min 34260000000 34200000000) = None
   \<and> instrument (mem (startup (demo_settings BUY) \<lparr>mem = initial_state, disk = None, orders = []\<rparr>)) = None
   \<and> fst (select_strikes ((demo_env BUY 34260000000 None TimedOut)\<lparr>spot_value_at := (\<lambda>i ts. None)\<rparr>)
            (startup (demo_settings BUY) \<lparr>mem = initial_state, disk = None, orders = []\<rparr>)) = Inr False
   \<and> instrument (mem (snd (select_strikes ((demo_env BUY 34260000000 None TimedOut)\<lparr>spot_value_at := (\<lambda>i ts. None)\<rparr>)
            (startup (demo_settings BUY) \<lparr>mem = initial_state, disk = None, orders = []\<rparr>)))) = Some ''NIFTY BANK''"
  by (simp add: demo_defs select_strikes_def get_spot_price_at_def py_time_def startup_def
      load_state_def initial_state_def)

text \<open>
  C4 as amended: when the spot price at the selection time is unavailable (and the start
  time is a valid clock time and the instrument map knows the configured instrument, so
  that the lookup is reached), \<^verbatim>\<open>select_strikes\<close> returns false, and the only change to
  the state is that the instrument field holds the configured instrument: no leg entry,
  not the phase, not the file and no order.
\<close>

theorem select_strikes_spot_unavailable:
  assumes "py_time (fst (range_start (cfg e))) (snd (range_start (cfg e))) = Inr start"
    and "instrument_map (cfg e) (cfg_instrument (cfg e)) = Some db"
    and "get_spot_price_at e (cfg_instrument (cfg e)) (min (now e) start) = None"
  shows "select_strikes e w
           = (Inr False, w\<lparr>mem := (mem w)\<lparr>instrument := Some (cfg_instrument (cfg e))\<rparr>\<rparr>)
         \<and> legs (mem (snd (select_strikes e w))) = legs (mem w)
         \<and> phase (mem (snd (select_strikes e w))) = phase (mem w)
         \<and> disk (snd (select_strikes e w)) = disk w
         \<and> orders (snd (select_strikes e w)) = orders w"
  using assms by (simp add: select_strikes_def)

theorem select_strikes_spot_unavailable_witness:
  "py_time (fst (range_start (cfg ((demo_env BUY 34260000000 None TimedOut)
                                     \<lparr>spot_value_at := (\<lambda>i ts. None)\<rparr>))))
      (snd (range_start (cfg ((demo_env BUY 34260000000 None TimedOut)
                                \<lparr>spot_value_at := (\<lambda>i ts. None)\<rparr>)))) = Inr 34200000000
   \<and> instrument_map (demo_settings BUY) ''NIFTY BANK'' = Some ''BANKNIFTY''
   \<and> get_spot_price_at ((demo_env BUY 34260000000 None TimedOut)
                          \<lparr>spot_value_at := (\<lambda>i ts. None)\<rparr>)
        ''NIFTY BANK'' (min 34260000000 34200000000) = None
   \<and> fst (select_strikes ((demo_env BUY 34260000000 None TimedOut)
                            \<lparr>spot_value_at := (\<lambda>i ts. None)\<rparr>) (demo_world BUY DONE 2))
     = Inr False
   \<and> legs (mem (snd (select_strikes ((demo_env BUY 34260000000 None TimedOut)
                                       \<lparr>spot_value_at := (\<lambda>i ts. None)\<rparr>)
                        (demo_world BUY DONE 2))))
     = [(''sp10ce'', demo_leg BUY DONE 2)]"
proof -
  let ?e = "(demo_env BUY 34260000000 None TimedOut)\<lparr>spot_value_at := (\<lambda>i ts. None)\<rparr>"
  have c: "cfg ?e = demo_settings BUY" and n: "now ?e = 34260000000"
    by (simp_all add: demo_defs)
  have h1: "py_time (fst (range_start (cfg ?e))) (snd (range_start (cfg ?e)))
              = Inr 34200000000"
    by (simp add: demo_defs py_time_def)
  have h2: "instrument_map (cfg ?e) (cfg_instrument (cfg ?e)) = Some ''BANKNIFTY''"
    by (simp add: demo_defs)
  have h3: "get_spot_price_at ?e (cfg_instrument (cfg ?e)) (min (now ?e) 34200000000) = None"
    by (simp add: demo_defs get_spot_price_at_def)
  have i: "cfg_instrument (cfg ?e) = ''NIFTY BANK''"
    by (simp add: demo_defs)
  have l: "legs (mem (demo_world BUY DONE 2)) = [(''sp10ce'', demo_leg BUY DONE 2)]"
    by (simp add: demo_defs)
  from select_strikes_spot_unavailable [OF h1 h2 h3, of "demo_world BUY DONE 2"] l
  have r: "fst (select_strikes ?e (demo_world BUY DONE 2)) = Inr False
           \<and> legs (mem (snd (select_strikes ?e (demo_world BUY DONE 2))))
               = [(''sp10ce'', demo_leg BUY DONE 2)]"
    by simp
  show ?thesis
    using h1 h2 h3 r c n i by simp
qed

section \<open>The stop-loss set on entry (C8)\<close>



section \<open>The entry trigger (C9)\<close>

text \<open>
  Claim C9 says that a leg in WAITING_ENTRY becomes ACTIVE exactly when the live price is
  strictly above \<^verbatim>\<open>range_high * (1 + entry_trigger_pct / 100.0)\<close>. The price condition is
  necessary but not sufficient: \<^verbatim>\<open>execute_entry\<close> makes the transition only under
  \<^verbatim>\<open>if order_id:\<close>. Here the live price 300 is above the trigger 275 and the gateway
  times out: the leg stays in WAITING_ENTRY.
\<close>

theorem entry_trigger_counterexample:
  "map_option status (map_of (legs (mem (demo_world BUY WAITING_ENTRY 0))) ''sp10ce'')
     = Some WAITING_ENTRY
   \<and> option_price (demo_env BUY eleven (Some 300) TimedOut) (token (demo_leg BUY WAITING_ENTRY 0))
     = Some 300
   \<and> (300::real) > float_mul (range_high (demo_leg BUY WAITING_ENTRY 0))
        (float_add 1 (float_div (entry_trigger_pct (demo_leg BUY WAITING_ENTRY 0)) 100))
   \<and> map_option status
       (map_of (legs (mem (check_leg_logic (demo_env BUY eleven (Some 300) TimedOut) ''sp10ce''
                             (demo_world BUY WAITING_ENTRY 0)))) ''sp10ce'')
     = Some WAITING_ENTRY"
  by (simp add: demo_defs exec_defs check_leg_logic_def trigger_values)

text \<open>
  C9 as amended: a leg in WAITING_ENTRY becomes ACTIVE exactly when the live price is
  available and not zero, strictly above the trigger that the code computes,
  \<^verbatim>\<open>range_high * (1 + entry_trigger_pct / 100.0)\<close> in Python's float arithmetic, and the
  entry order is placed (the leg has a direction, the instrument has a lot size, and the
  order id is truthy: paper trading, or a non-empty id from the gateway); otherwise the
  state in memory is unchanged. For range high 250 and 10 percent the trigger is 275, and
  a live price of 274.99 (the double nearest to it) changes nothing at all.
\<close>

theorem entry_trigger:
  assumes "map_of (legs (mem w)) k = Some l" and "status l = WAITING_ENTRY"
  shows "((map_option status (map_of (legs (mem (check_leg_logic e k w))) k) = Some LEG_ACTIVE)
          = (\<exists>p a qty. option_price e (token l) = Some p \<and> p \<noteq> 0 \<and> action l = Some a
               \<and> order_quantity (cfg e) (mem w) l = Inr qty
               \<and> truthy_id (entry_order_id e l a qty)
               \<and> p > float_mul (range_high l)
                       (float_add 1 (float_div (entry_trigger_pct l) 100))))
       \<and> (map_option status (map_of (legs (mem (check_leg_logic e k w))) k) \<noteq> Some LEG_ACTIVE
            \<longrightarrow> mem (check_leg_logic e k w) = mem w)
       \<and> (range_high l = 250 \<and> entry_trigger_pct l = 10 \<longrightarrow>
            float_mul (range_high l) (float_add 1 (float_div (entry_trigger_pct l) 100)) = 275
            \<and> (option_price e (token l) = Some (fl (27499 / 100))
                 \<longrightarrow> check_leg_logic e k w = w))"
proof -
  have transition:
    "(map_option status (map_of (legs (mem (check_leg_logic e k w))) k) = Some LEG_ACTIVE)
          = (\<exists>p a qty. option_price e (token l) = Some p \<and> p \<noteq> 0 \<and> action l = Some a
               \<and> order_quantity (cfg e) (mem w) l = Inr qty
               \<and> truthy_id (entry_order_id e l a qty)
               \<and> p > float_mul (range_high l)
                       (float_add 1 (float_div (entry_trigger_pct l) 100)))"
    using assms
    by (auto simp add: check_leg_logic_def execute_entry_def map_of_mutate_leg
        split: option.splits sum.splits)
  have otherwise:
    "map_option status (map_of (legs (mem (check_leg_logic e k w))) k) \<noteq> Some LEG_ACTIVE
            \<longrightarrow> mem (check_leg_logic e k w) = mem w"
    using assms
    by (auto simp add: check_leg_logic_def execute_entry_def map_of_mutate_leg
        split: option.splits sum.splits)
  have concrete: "range_high l = 250 \<and> entry_trigger_pct l = 10 \<longrightarrow>
            float_mul (range_high l) (float_add 1 (float_div (entry_trigger_pct l) 100)) = 275
            \<and> (option_price e (token l) = Some (fl (27499 / 100))
                 \<longrightarrow> check_leg_logic e k w = w)"
    using assms
    by (simp add: check_leg_logic_def trigger_values split: option.splits)
  from transition otherwise concrete show ?thesis by blast
qed

text \<open>
  Instances: at range high 250 and 10 percent the live price 280 makes the leg ACTIVE and
  the live price 274.99 changes nothing. At range high 200 and 15 percent the trigger is
  the double that Python prints as \<^verbatim>\<open>229.99999999999997\<close>, and the live price 230 makes the
  leg ACTIVE.
\<close>

theorem entry_trigger_witness:
  "map_of (legs (mem (demo_world BUY WAITING_ENTRY 0))) ''sp10ce''
      = Some (demo_leg BUY WAITING_ENTRY 0)
   \<and> status (demo_leg BUY WAITING_ENTRY 0) = WAITING_ENTRY
   \<and> range_high (demo_leg BUY WAITING_ENTRY 0) = 250
   \<and> entry_trigger_pct (demo_leg BUY WAITING_ENTRY 0) = 10
   \<and> map_option status
       (map_of (legs (mem (check_leg_logic
                             (demo_env BUY eleven (Some 280) (Returned (Some ''1000001'')))
                             ''sp10ce'' (demo_world BUY WAITING_ENTRY 0)))) ''sp10ce'')
     = Some LEG_ACTIVE
   \<and> check_leg_logic (demo_env BUY eleven (Some (fl (27499 / 100))) (Returned (Some ''1000001'')))
        ''sp10ce'' (demo_world BUY WAITING_ENTRY 0)
     = demo_world BUY WAITING_ENTRY 0
   \<and> float_mul 200 (float_add 1 (float_div 15 100)) < 230
   \<and> map_option status
       (map_of (legs (mem (check_leg_logic
          (demo_env BUY eleven (Some 230) (Returned (Some ''1000001''))) ''sp10ce''
          (demo_run_world ACTIVE
             ((demo_leg BUY WAITING_ENTRY 0)\<lparr>range_high := 200, entry_trigger_pct := 15\<rparr>)
             ((demo_leg BUY WAITING_ENTRY 0)\<lparr>range_high := 200, entry_trigger_pct := 15\<rparr>)
             [])))) ''sp10ce'')
     = Some LEG_ACTIVE"
proof -
  let ?e = "demo_env BUY eleven (Some 280) (Returned (Some ''1000001''))"
  let ?f = "demo_env BUY eleven (Some (fl (27499 / 100))) (Returned (Some ''1000001''))"
  let ?g = "demo_env BUY eleven (Some 230) (Returned (Some ''1000001''))"
  let ?l = "demo_leg BUY WAITING_ENTRY 0"
  let ?w = "demo_world BUY WAITING_ENTRY 0"
  let ?m = "(demo_leg BUY WAITING_ENTRY 0)\<lparr>range_high := 200, entry_trigger_pct := 15\<rparr>"
  let ?v = "demo_run_world ACTIVE ?m ?m []"
  have h1: "map_of (legs (mem ?w)) ''sp10ce'' = Some ?l"
    and h2: "status ?l = WAITING_ENTRY"
    and h3: "range_high ?l = 250"
    and h4: "entry_trigger_pct ?l = 10"
    by (simp_all add: demo_defs)
  have m1: "map_of (legs (mem ?v)) ''sp10ce'' = Some ?m"
    and m2: "status ?m = WAITING_ENTRY"
    by (simp_all add: demo_defs demo_run_world_def)
  have fire: "\<exists>p a qty. option_price ?e (token ?l) = Some p \<and> p \<noteq> 0 \<and> action ?l = Some a
               \<and> order_quantity (cfg ?e) (mem ?w) ?l = Inr qty
               \<and> truthy_id (entry_order_id ?e ?l a qty)
               \<and> p > float_mul (range_high ?l) (float_add 1 (float_div (entry_trigger_pct ?l) 100))"
    by (simp add: demo_defs order_quantity_def entry_order_id_def truthy_id_def trigger_values)
  have below: "option_price ?f (token ?l) = Some (fl (27499 / 100))"
    by (simp add: demo_defs)
  have rounded: "float_mul 200 (float_add 1 (float_div 15 100)) < 230"
    by (simp add: rounded_values)
  have fire': "\<exists>p a qty. option_price ?g (token ?m) = Some p \<and> p \<noteq> 0 \<and> action ?m = Some a
               \<and> order_quantity (cfg ?g) (mem ?v) ?m = Inr qty
               \<and> truthy_id (entry_order_id ?g ?m a qty)
               \<and> p > float_mul (range_high ?m) (float_add 1 (float_div (entry_trigger_pct ?m) 100))"
    by (simp add: demo_defs demo_run_world_def order_quantity_def entry_order_id_def
        truthy_id_def rounded_values)
  from entry_trigger [OF h1 h2, where e = ?e] fire
  have a: "map_option status (map_of (legs (mem (check_leg_logic ?e ''sp10ce'' ?w))) ''sp10ce'')
             = Some LEG_ACTIVE"
    by blast
  from entry_trigger [OF h1 h2, where e = ?f] h3 h4 below
  have b: "check_leg_logic ?f ''sp10ce'' ?w = ?w"
    by blast
  from entry_trigger [OF m1 m2, where e = ?g] fire'
  have c: "map_option status (map_of (legs (mem (check_leg_logic ?g ''sp10ce'' ?v))) ''sp10ce'')
             = Some LEG_ACTIVE"
    by blast
  show ?thesis
    using h1 h2 h3 h4 a b rounded c by simp
qed

section \<open>A live price of zero (C10)\<close>

text \<open>
  Claim C10: a live price of exactly 0 is treated as an unavailable price. The leg
  monitor is a no-op for the leg (the world, orders included, is unchanged) when the
  live price is 0 just as when it is missing, and the as-of spot lookup returns
  \<^verbatim>\<open>None\<close> for a stored value of 0 just as for no value.
\<close>

theorem zero_price_is_unavailable:
  "(option_price e (token l) = Some 0 \<or> option_price e (token l) = None
      \<longrightarrow> map_of (legs (mem w)) k = Some l \<longrightarrow> check_leg_logic e k w = w)
   \<and> (spot_value_at e i t = Some 0 \<or> spot_value_at e i t = None
      \<longrightarrow> get_spot_price_at e i t = None)"
  by (auto simp add: check_leg_logic_def get_spot_price_at_def)

theorem zero_price_is_unavailable_witness:
  "option_price (demo_env BUY eleven (Some 0) (Returned (Some ''1''))) (token (demo_leg BUY WAITING_ENTRY 0)) = Some 0
   \<and> map_of (legs (mem (demo_world BUY WAITING_ENTRY 0))) ''sp10ce'' = Some (demo_leg BUY WAITING_ENTRY 0)
   \<and> check_leg_logic (demo_env BUY eleven (Some 0) (Returned (Some ''1''))) ''sp10ce'' (demo_world BUY WAITING_ENTRY 0) = demo_world BUY WAITING_ENTRY 0
   \<and> spot_value_at ((demo_env BUY eleven (Some 0) (Returned (Some ''1'')))\<lparr>spot_value_at := (\<lambda>i ts. Some 0)\<rparr>) ''NIFTY BANK'' eleven = Some 0
   \<and> get_spot_price_at ((demo_env BUY eleven (Some 0) (Returned (Some ''1'')))\<lparr>spot_value_at := (\<lambda>i ts. Some 0)\<rparr>) ''NIFTY BANK'' eleven = None"
proof -
  let ?e = "demo_env BUY eleven (Some 0) (Returned (Some ''1''))"
  let ?ez = "?e\<lparr>spot_value_at := (\<lambda>i ts. Some 0)\<rparr>"
  have p: "option_price ?e (token (demo_leg BUY WAITING_ENTRY 0)) = Some 0"
    by (simp add: demo_defs)
  have m: "map_of (legs (mem (demo_world BUY WAITING_ENTRY 0))) ''sp10ce'' = Some (demo_leg BUY WAITING_ENTRY 0)"
    by (simp add: demo_defs)
  have s: "spot_value_at ?ez ''NIFTY BANK'' eleven = Some 0"
    by simp
  from zero_price_is_unavailable [where e = ?e and l = "demo_leg BUY WAITING_ENTRY 0"
      and w = "demo_world BUY WAITING_ENTRY 0" and k = "''sp10ce''"] p m
  have a: "check_leg_logic ?e ''sp10ce'' (demo_world BUY WAITING_ENTRY 0) = demo_world BUY WAITING_ENTRY 0"
    by blast
  from zero_price_is_unavailable [where e = ?ez and i = "''NIFTY BANK''" and t = eleven] s
  have b: "get_spot_price_at ?ez ''NIFTY BANK'' eleven = None"
    by blast
  show ?thesis using p m s a b by simp
qed

section \<open>The invariant is preserved\<close>

text \<open>
  Every operation of the engine keeps \<open>world_inv\<close>: of the state in memory and of every
  state it writes to the file.
\<close>

lemma leg_inv_le2: "leg_inv l \<Longrightarrow> entries_count l \<le> 2"
  by (auto simp add: leg_inv_def split: if_splits)

lemma fresh_leg_inv: "fresh_leg l \<Longrightarrow> leg_inv l"
  by (auto simp add: leg_inv_def fresh_leg_def)

lemma list_all_map_entry:
  assumes "list_all (\<lambda>(k, l). P l) xs" and "\<And>l. map_of xs k = Some l \<Longrightarrow> P (f l)"
  shows "list_all (\<lambda>(k, l). P l) (AList.map_entry k f xs)"
  using assms by (induction xs) (auto split: if_splits)

lemma list_all_update:
  assumes "list_all (\<lambda>(k, l). P l) xs" and "P v"
  shows "list_all (\<lambda>(k, l). P l) (AList.update k v xs)"
  using assms by (induction xs) auto

lemma list_all_leg_lookup:
  assumes "list_all (\<lambda>(k, l). P l) xs" and "map_of xs k = Some l"
  shows "P l"
  using assms by (induction xs) (auto split: if_splits)

lemma state_inv_lookup:
  assumes "state_inv s" and "map_of (legs s) k = Some l"
  shows "leg_inv l"
  using assms list_all_leg_lookup [of leg_inv "legs s" k l] by (simp add: state_inv_def)

lemma state_inv_map_entry:
  assumes "state_inv s" and "phase s = ACTIVE"
    and "\<And>l. map_of (legs s) k = Some l \<Longrightarrow> leg_inv (f l)"
  shows "state_inv (s\<lparr>legs := AList.map_entry k f (legs s)\<rparr>)"
proof -
  have "list_all (\<lambda>(k, l). leg_inv l) (legs s)"
    using assms(1) by (simp add: state_inv_def)
  then have "list_all (\<lambda>(k, l). leg_inv l) (AList.map_entry k f (legs s))"
    using assms(3) by (rule list_all_map_entry)
  moreover have "distinct (map fst (AList.map_entry k f (legs s)))"
    using assms(1) by (simp add: state_inv_def AList.distinct_map_entry)
  ultimately show ?thesis
    using assms(2) by (simp add: state_inv_def)
qed

lemma world_inv_saved:
  assumes "state_inv (mem w)"
  shows "world_inv (save_state w)"
  using assms by (simp add: world_inv_def save_state_def)

lemma world_inv_log_event [simp]: "world_inv (log_event ev w) = world_inv w"
  by (simp add: world_inv_def log_event_def)

lemma phase_execute_entry [simp]: "phase (mem (snd (execute_entry e k p w))) = phase (mem w)"
  by (simp add: exec_defs split: option.splits sum.splits)

lemma phase_execute_exit [simp]: "phase (mem (snd (execute_exit e k p r w))) = phase (mem w)"
  by (simp add: exec_defs split: option.splits sum.splits)

lemma world_inv_execute_entry:
  assumes "world_inv w" and "phase (mem w) = ACTIVE"
    and "map_of (legs (mem w)) k = Some l"
    and "status l = WAITING_ENTRY \<or> status l = WAITING_REENTRY"
  shows "world_inv (snd (execute_entry e k p w))"
proof -
  let ?f = "\<lambda>a d. d\<lparr>status := LEG_ACTIVE, entry_price := p,
                 sl_price := (if a = BUY then float_mul p (float_sub 1 (float_div (sl_pct d) 100))
                              else float_mul p (float_add 1 (float_div (sl_pct d) 100))),
                 entries_count := entries_count d + 1\<rparr>"
  have inv: "state_inv (mem w)"
    using assms(1) by (simp add: world_inv_def)
  have "leg_inv l"
    using inv assms(3) by (rule state_inv_lookup)
  with assms(4) have "leg_inv (?f a l)" for a
    by (auto simp add: leg_inv_def)
  with assms(3) have "state_inv ((mem w)\<lparr>legs := AList.map_entry k (?f a) (legs (mem w))\<rparr>)" for a
    using state_inv_map_entry [OF inv assms(2), of k "?f a"] by simp
  then have "world_inv (save_state (mutate_leg k (?f a) (log_event ev w)))" for a ev
    by (intro world_inv_saved) (simp add: mutate_leg_def log_event_def)
  with assms(1) show ?thesis
    by (simp add: execute_entry_def split: option.splits sum.splits)
qed

lemma world_inv_execute_exit:
  assumes "world_inv w" and "phase (mem w) = ACTIVE"
  shows "world_inv (snd (execute_exit e k p r w))"
proof -
  let ?f = "\<lambda>d. d\<lparr>status := EXITED, exit_price := Some p, exit_reason := Some r\<rparr>"
  have inv: "state_inv (mem w)"
    using assms(1) by (simp add: world_inv_def)
  have "leg_inv (?f l)" if "map_of (legs (mem w)) k = Some l" for l
    using leg_inv_le2 [OF state_inv_lookup [OF inv that]] by (simp add: leg_inv_def)
  then have "state_inv ((mem w)\<lparr>legs := AList.map_entry k ?f (legs (mem w))\<rparr>)"
    using state_inv_map_entry [OF inv assms(2), of k ?f] by simp
  then have "world_inv (save_state (mutate_leg k ?f (log_event ev w)))" for ev
    by (intro world_inv_saved) (simp add: mutate_leg_def log_event_def)
  with assms(1) show ?thesis
    by (simp add: execute_exit_def split: option.splits sum.splits)
qed

lemma world_inv_mutate_leg:
  assumes "world_inv w" and "phase (mem w) = ACTIVE"
    and "\<And>l. map_of (legs (mem w)) k = Some l \<Longrightarrow> leg_inv (f l)"
  shows "world_inv (mutate_leg k f w)"
  using assms state_inv_map_entry [of "mem w" k f]
  by (simp add: world_inv_def mutate_leg_def)

lemma phase_mutate_leg [simp]: "phase (mem (mutate_leg k f w)) = phase (mem w)"
  by (simp add: mutate_leg_def)

lemma phase_check_leg_logic [simp]: "phase (mem (check_leg_logic e k w)) = phase (mem w)"
  by (simp add: check_leg_logic_def case_prod_beta split: option.splits sum.splits)

lemma world_inv_check_leg_logic:
  assumes "world_inv w" and "phase (mem w) = ACTIVE"
  shows "world_inv (check_leg_logic e k w)"
proof -
  have exit: "world_inv (mutate_leg k
                 (\<lambda>d. d\<lparr>status := (if entries_count d < 2 then WAITING_REENTRY else DONE)\<rparr>)
                 (snd (execute_exit e k p SL_HIT w)))" for p
  proof (rule world_inv_mutate_leg)
    show "world_inv (snd (execute_exit e k p SL_HIT w))"
      using assms by (rule world_inv_execute_exit)
    show "phase (mem (snd (execute_exit e k p SL_HIT w))) = ACTIVE"
      using assms(2) by simp
  next
    fix l
    assume l: "map_of (legs (mem (snd (execute_exit e k p SL_HIT w)))) k = Some l"
    have "world_inv (snd (execute_exit e k p SL_HIT w))"
      using assms by (rule world_inv_execute_exit)
    then have "leg_inv l"
      using l state_inv_lookup by (auto simp add: world_inv_def)
    then have "entries_count l \<le> 2" by (rule leg_inv_le2)
    then show "leg_inv (l\<lparr>status := (if entries_count l < 2 then WAITING_REENTRY else DONE)\<rparr>)"
      by (auto simp add: leg_inv_def)
  qed
  show ?thesis
    using assms exit world_inv_execute_exit [OF assms, of e k _ SL_HIT]
      world_inv_execute_entry [OF assms, of k _ e]
    by (auto simp add: check_leg_logic_def case_prod_beta split: option.splits sum.splits)
qed

lemma world_inv_fold_check:
  assumes "world_inv w" and "phase (mem w) = ACTIVE"
  shows "world_inv (fold (check_leg_logic e) ks w)
         \<and> phase (mem (fold (check_leg_logic e) ks w)) = ACTIVE"
  using assms
  by (induction ks arbitrary: w) (simp_all add: world_inv_check_leg_logic)

lemma world_inv_monitor:
  assumes "world_inv w" and "phase (mem w) = ACTIVE"
  shows "world_inv (monitor_and_execute e w)"
  using world_inv_fold_check [OF assms] by (simp add: monitor_and_execute_def)

lemma phase_monitor [simp]: "phase (mem (monitor_and_execute e w)) = phase (mem w)"
proof -
  have "phase (mem (fold (check_leg_logic e) ks w)) = phase (mem w)" for ks
    by (induction ks arbitrary: w) simp_all
  then show ?thesis by (simp add: monitor_and_execute_def)
qed

lemma run_exits_inv:
  assumes "world_inv w" and "phase (mem w) = ACTIVE"
  shows "world_inv (snd (run_exits e r ts w))
         \<and> phase (mem (snd (run_exits e r ts w))) = ACTIVE"
  using assms
proof (induction ts arbitrary: w)
  case Nil
  then show ?case by simp
next
  case (Cons t ts)
  obtain k p where t: "t = (k, p)" by (cases t)
  have "world_inv (snd (execute_exit e k p r w))"
    and "phase (mem (snd (execute_exit e k p r w))) = ACTIVE"
    using Cons.prems by (simp_all add: world_inv_execute_exit)
  from Cons.IH [OF this] show ?case
    by (simp add: t case_prod_beta split: sum.splits)
qed

lemma phase_run_exits [simp]: "phase (mem (snd (run_exits e r ts w))) = phase (mem w)"
  by (induction ts arbitrary: w) (auto simp add: case_prod_beta split: sum.splits)

lemma gap_tasks_active:
  "(k, p) \<in> set (gap_tasks e ls) \<Longrightarrow> \<exists>l. (k, l) \<in> set ls \<and> status l = LEG_ACTIVE"
proof (induction ls)
  case Nil
  then show ?case by simp
next
  case (Cons x ls)
  obtain k' l' where x: "x = (k', l')" by (cases x)
  show ?case
  proof (cases "(k, p) \<in> set (gap_tasks e ls)")
    case True
    with Cons.IH show ?thesis by auto
  next
    case False
    with Cons.prems have "k = k' \<and> status l' = LEG_ACTIVE"
      by (auto simp add: x split: if_splits option.splits)
    then show ?thesis by (auto simp add: x)
  qed
qed

lemma gap_tasks_fresh:
  "list_all (\<lambda>(k, l). fresh_leg l) ls \<Longrightarrow> gap_tasks e ls = []"
  by (induction ls) (auto simp add: fresh_leg_def)

lemma square_off_tasks_fresh:
  "list_all (\<lambda>(k, l). fresh_leg l) ls \<Longrightarrow> square_off_tasks ls = []"
  by (induction ls) (auto simp add: fresh_leg_def square_off_tasks_def)

lemma mark_waiting_done_fresh:
  "list_all (\<lambda>(k, l). fresh_leg l) ls \<Longrightarrow> map (\<lambda>(k, l). (k, mark_waiting_done l)) ls = ls"
  by (induction ls) (auto simp add: fresh_leg_def mark_waiting_done_def)

lemma world_inv_check_gap:
  assumes "world_inv w"
  shows "world_inv (snd (check_gap_condition e w))"
proof (cases "phase (mem w) = ACTIVE")
  case True
  with assms show ?thesis
    by (simp add: check_gap_condition_def run_exits_inv)
next
  case False
  with assms have "list_all (\<lambda>(k, l). fresh_leg l) (legs (mem w))"
    by (simp add: world_inv_def state_inv_def)
  then have "gap_tasks e (legs (mem w)) = []"
    by (rule gap_tasks_fresh)
  with assms show ?thesis
    by (simp add: check_gap_condition_def)
qed

lemma phase_check_gap [simp]: "phase (mem (snd (check_gap_condition e w))) = phase (mem w)"
  by (simp add: check_gap_condition_def)

lemma leg_inv_mark: "leg_inv l \<Longrightarrow> leg_inv (mark_waiting_done l)"
  by (auto simp add: leg_inv_def mark_waiting_done_def split: if_splits)

lemma list_all_mark:
  "list_all (\<lambda>(k, l). leg_inv l) ls
    \<Longrightarrow> list_all (\<lambda>(k, l). leg_inv l) (map (\<lambda>(k, l). (k, mark_waiting_done l)) ls)"
  by (induction ls) (auto simp add: leg_inv_mark)

lemma map_fst_relabel [simp]: "map (fst \<circ> (\<lambda>(k, l). (k, f l))) ls = map fst ls"
  by (induction ls) auto

lemma world_inv_strategy_exit:
  assumes "world_inv w"
  shows "world_inv (snd (execute_strategy_exit e w))"
proof (cases "phase (mem w) = ACTIVE")
  case True
  let ?w = "w\<lparr>mem := (mem w)\<lparr>legs := map (\<lambda>(k, l). (k, mark_waiting_done l)) (legs (mem w))\<rparr>\<rparr>"
  have "world_inv ?w"
    using assms True by (simp add: world_inv_def state_inv_def list_all_mark)
  moreover have "phase (mem ?w) = ACTIVE"
    using True by simp
  ultimately show ?thesis
    unfolding execute_strategy_exit_def by (simp only: run_exits_inv)
next
  case False
  with assms have fresh: "list_all (\<lambda>(k, l). fresh_leg l) (legs (mem w))"
    by (simp add: world_inv_def state_inv_def)
  show ?thesis
    using assms
    by (simp add: execute_strategy_exit_def square_off_tasks_fresh [OF fresh]
        mark_waiting_done_fresh [OF fresh])
qed

lemma state_inv_reset:
  "state_inv (s\<lparr>phase := IDLE, legs := [], exit_triggered := False, selected_expiry := None\<rparr>)"
  by (simp add: state_inv_def)

lemma world_inv_daily_exit:
  assumes "world_inv w"
  shows "world_inv (snd (task_daily_exit e t w))"
  using assms world_inv_strategy_exit [OF assms, of e]
  by (auto simp add: task_daily_exit_def case_prod_beta state_inv_reset
      intro!: world_inv_saved split: sum.splits)

lemma world_inv_gap_check:
  assumes "world_inv w"
  shows "world_inv (snd (task_gap_check e t w))"
  using assms world_inv_check_gap [OF assms, of e]
  by (auto simp add: task_gap_check_def split: sum.splits)

lemma state_inv_instrument [simp]: "state_inv (s\<lparr>instrument := x\<rparr>) = state_inv s"
  by (simp add: state_inv_def)

lemma world_inv_instrument [simp]:
  "world_inv (w\<lparr>mem := (mem w)\<lparr>instrument := x\<rparr>\<rparr>) = world_inv w"
  by (simp add: world_inv_def)

lemma fresh_selected_leg: "fresh_leg (selected_leg d b t)"
  by (simp add: fresh_leg_def selected_leg_def)

lemma state_inv_update:
  assumes "state_inv s" and "fresh_leg v"
  shows "state_inv (s\<lparr>legs := AList.update k v (legs s)\<rparr>)"
  using assms
  by (auto simp add: state_inv_def AList.distinct_update list_all_update fresh_leg_inv)

lemma select_legs_inv:
  assumes "world_inv w"
  shows "world_inv (snd (select_legs e db t s cs w))
         \<and> phase (mem (snd (select_legs e db t s cs w))) = phase (mem w)"
  using assms
proof (induction cs arbitrary: w)
  case Nil
  then show ?case by simp
next
  case (Cons c cs)
  obtain k d where c: "c = (k, d)" by (cases c)
  have upd: "world_inv (w\<lparr>mem := (mem w)\<lparr>legs := AList.update k v (legs (mem w))\<rparr>\<rparr>)"
    if "fresh_leg v" for v
    using Cons.prems that by (simp add: world_inv_def state_inv_update)
  show ?case
    using Cons.prems Cons.IH [OF Cons.prems] Cons.IH [OF upd [OF fresh_selected_leg]]
    by (simp add: c split: sum.splits option.splits prod.splits)
qed

lemma select_strikes_inv:
  assumes "world_inv w"
  shows "world_inv (snd (select_strikes e w))
         \<and> phase (mem (snd (select_strikes e w))) = phase (mem w)"
proof -
  let ?w = "w\<lparr>mem := (mem w)\<lparr>instrument := Some (cfg_instrument (cfg e))\<rparr>\<rparr>"
  have w1: "world_inv ?w" and p1: "phase (mem ?w) = phase (mem w)"
    using assms by simp_all
  show ?thesis
    using assms select_legs_inv [OF w1, of e] p1
    by (simp add: select_strikes_def case_prod_beta split: sum.splits option.splits)
qed

lemma state_inv_monitoring:
  assumes "state_inv s" and "phase s \<noteq> ACTIVE"
  shows "state_inv (s\<lparr>phase := MONITORING_RANGE\<rparr>)"
  using assms by (simp add: state_inv_def)

lemma world_inv_task_start:
  assumes "world_inv w"
  shows "world_inv (snd (task_start e t w))"
proof -
  have sel: "world_inv (snd (select_strikes e w))"
    and ph: "phase (mem (snd (select_strikes e w))) = phase (mem w)"
    using select_strikes_inv [OF assms] by simp_all
  have "world_inv (save_state ((snd (select_strikes e w))
          \<lparr>mem := (mem (snd (select_strikes e w)))\<lparr>phase := MONITORING_RANGE\<rparr>\<rparr>))"
    if "phase (mem w) = IDLE"
  proof (rule world_inv_saved)
    have "state_inv (mem (snd (select_strikes e w)))"
      using sel by (simp add: world_inv_def)
    moreover have "phase (mem (snd (select_strikes e w))) \<noteq> ACTIVE"
      using ph that by simp
    ultimately show "state_inv (mem ((snd (select_strikes e w))
          \<lparr>mem := (mem (snd (select_strikes e w)))\<lparr>phase := MONITORING_RANGE\<rparr>\<rparr>))"
      by (simp add: state_inv_monitoring)
  qed
  with assms sel show ?thesis
    by (simp add: task_start_def case_prod_beta split: sum.splits)
qed

lemma leg_inv_finalize: "fresh_leg l \<Longrightarrow> leg_inv (finalize_leg e t l)"
  by (auto simp add: fresh_leg_def leg_inv_def finalize_leg_def split: option.splits)

lemma list_all_finalize:
  "list_all (\<lambda>(k, l). fresh_leg l) ls
    \<Longrightarrow> list_all (\<lambda>(k, l). leg_inv l) (map (\<lambda>(k, l). (k, finalize_leg e t l)) ls)"
  by (induction ls) (auto simp add: leg_inv_finalize)

lemma world_inv_task_range_end:
  assumes "world_inv w"
  shows "world_inv (snd (task_range_end e t w))"
proof (cases "phase (mem w) = MONITORING_RANGE")
  case True
  with assms have fresh: "list_all (\<lambda>(k, l). fresh_leg l) (legs (mem w))"
    and dist: "distinct (map fst (legs (mem w)))"
    by (simp_all add: world_inv_def state_inv_def)
  have "state_inv ((mem w)\<lparr>legs := map (\<lambda>(k, l). (k, finalize_leg e s l)) (legs (mem w)),
                           phase := ACTIVE\<rparr>)" for s
    using dist list_all_finalize [OF fresh] by (simp add: state_inv_def)
  then have "world_inv (save_state (w\<lparr>mem := (mem w)
               \<lparr>legs := map (\<lambda>(k, l). (k, finalize_leg e s l)) (legs (mem w)),
                phase := ACTIVE\<rparr>\<rparr>))" for s
    by (intro world_inv_saved) simp
  with assms show ?thesis
    by (simp add: task_range_end_def finalize_ranges_def split: sum.splits)
next
  case False
  with assms show ?thesis
    by (simp add: task_range_end_def)
qed

lemma world_inv_task_monitor:
  assumes "world_inv w"
  shows "world_inv (snd (task_monitor e w))"
  using assms by (simp add: task_monitor_def world_inv_monitor)

lemma world_inv_run_tasks:
  assumes "world_inv w"
  shows "world_inv (snd (run_tasks e t1 t2 t3 t4 w))"
proof -
  have a: "world_inv (snd (task_gap_check e t3 w))"
    using assms by (rule world_inv_gap_check)
  then have b: "world_inv (snd (task_daily_exit e t4 (snd (task_gap_check e t3 w))))"
    by (rule world_inv_daily_exit)
  then have c: "world_inv (snd (task_start e t1
                   (snd (task_daily_exit e t4 (snd (task_gap_check e t3 w))))))"
    by (rule world_inv_task_start)
  then have d: "world_inv (snd (task_range_end e t2 (snd (task_start e t1
                   (snd (task_daily_exit e t4 (snd (task_gap_check e t3 w))))))))"
    by (rule world_inv_task_range_end)
  then have "world_inv (snd (task_monitor e (snd (task_range_end e t2 (snd (task_start e t1
                   (snd (task_daily_exit e t4 (snd (task_gap_check e t3 w))))))))))"
    by (rule world_inv_task_monitor)
  with a b c d show ?thesis
    by (simp add: run_tasks_def case_prod_beta split: sum.splits)
qed

lemma world_inv_tick:
  assumes "world_inv w"
  shows "world_inv (snd (tick e w))"
  using assms world_inv_run_tasks [OF assms, of e]
  by (simp add: tick_def split: sum.splits)

lemma fresh_placeholder: "fresh_leg (placeholder_leg n)"
  by (simp add: fresh_leg_def placeholder_leg_def)

lemma list_all_placeholders:
  "list_all (\<lambda>(k, l). fresh_leg l) (map (\<lambda>(k, d). (k, placeholder_leg (cfg_lots d))) cs)"
  by (induction cs) (auto simp add: fresh_placeholder)

lemma list_all_fresh_inv:
  "list_all (\<lambda>(k, l). fresh_leg l) ls \<Longrightarrow> list_all (\<lambda>(k, l). leg_inv l) ls"
  by (induction ls) (auto simp add: fresh_leg_inv)

lemma map_fst_placeholders [simp]:
  "map (fst \<circ> (\<lambda>(k, d). (k, placeholder_leg (cfg_lots d)))) cs = map fst cs"
  by (induction cs) auto

lemma state_inv_initial: "state_inv initial_state"
  by (simp add: state_inv_def initial_state_def)

lemma world_inv_startup:
  assumes "case disk w of None \<Rightarrow> True | Some d \<Rightarrow> state_inv d"
    and "distinct (map fst (leg_configs c))"
  shows "world_inv (startup c w)"
proof -
  let ?w = "load_state (w\<lparr>mem := initial_state\<rparr>)"
  have loaded: "world_inv ?w"
    using assms(1) by (simp add: world_inv_def load_state_def state_inv_initial split: option.splits)
  have "state_inv ((mem ?w)\<lparr>legs := map (\<lambda>(k, d). (k, placeholder_leg (cfg_lots d)))
                                      (leg_configs c)\<rparr>)"
    using assms(2) list_all_placeholders [of "leg_configs c"]
      list_all_fresh_inv [OF list_all_placeholders [of "leg_configs c"]]
    by (simp add: state_inv_def)
  moreover have "disk ?w = disk w"
    by (simp add: load_state_def split: option.splits)
  ultimately have "world_inv (?w\<lparr>mem := (mem ?w)\<lparr>legs :=
        map (\<lambda>(k, d). (k, placeholder_leg (cfg_lots d))) (leg_configs c)\<rparr>\<rparr>)"
    using assms(1) by (simp add: world_inv_def)
  with loaded show ?thesis
    by (simp add: startup_def)
qed

lemma reachable_world_inv: "reachable w \<Longrightarrow> world_inv w"
proof (induction rule: reachable.induct)
  case (boot c)
  then show ?case by (simp add: world_inv_startup)
next
  case (step w e)
  then show ?case by (simp add: world_inv_tick)
next
  case (restart w c)
  from restart.IH have "case disk w of None \<Rightarrow> True | Some d \<Rightarrow> state_inv d"
    by (simp add: world_inv_def)
  then show ?case using restart.hyps(2) by (rule world_inv_startup)
qed

section \<open>Legs that are EXITED or DONE\<close>

text \<open>
  Outside the daily exit window an iteration leaves a leg that is EXITED or DONE as it
  is; the stop-loss of a leg entered twice ends in DONE.
\<close>

lemma final_leg_phase:
  assumes "world_inv w" and "map_of (legs (mem w)) k = Some l"
    and "status l = DONE \<or> status l = EXITED"
  shows "phase (mem w) = ACTIVE"
proof (rule ccontr)
  assume "phase (mem w) \<noteq> ACTIVE"
  with assms(1) have "list_all (\<lambda>(k, l). fresh_leg l) (legs (mem w))"
    by (simp add: world_inv_def state_inv_def)
  from list_all_leg_lookup [OF this assms(2)] assms(3) show False
    by (auto simp add: fresh_leg_def)
qed

lemma lookup_execute_exit_other:
  "k' \<noteq> k \<Longrightarrow>
    map_of (legs (mem (snd (execute_exit e k' p r w)))) k = map_of (legs (mem w)) k"
  by (simp add: execute_exit_def map_of_mutate_leg split: option.splits sum.splits)

lemma lookup_execute_entry_other:
  "k' \<noteq> k \<Longrightarrow>
    map_of (legs (mem (snd (execute_entry e k' p w)))) k = map_of (legs (mem w)) k"
  by (simp add: execute_entry_def map_of_mutate_leg split: option.splits sum.splits)

lemma lookup_run_exits_other:
  "k \<notin> fst ` set ts \<Longrightarrow>
    map_of (legs (mem (snd (run_exits e r ts w)))) k = map_of (legs (mem w)) k"
  by (induction ts arbitrary: w)
    (auto simp add: case_prod_beta lookup_execute_exit_other split: sum.splits)

lemma gap_tasks_skip_final:
  assumes "distinct (map fst ls)" and "map_of ls k = Some l" and "status l \<noteq> LEG_ACTIVE"
  shows "k \<notin> fst ` set (gap_tasks e ls)"
proof
  assume "k \<in> fst ` set (gap_tasks e ls)"
  then obtain p where "(k, p) \<in> set (gap_tasks e ls)" by auto
  from gap_tasks_active [OF this] obtain l' where "(k, l') \<in> set ls"
    and active: "status l' = LEG_ACTIVE" by blast
  with assms(1) have "map_of ls k = Some l'" by simp
  with assms(2) active assms(3) show False by simp
qed

lemma lookup_check_gap:
  assumes "world_inv w" and "map_of (legs (mem w)) k = Some l" and "status l \<noteq> LEG_ACTIVE"
  shows "map_of (legs (mem (snd (check_gap_condition e w)))) k = Some l"
proof -
  have "distinct (map fst (legs (mem w)))"
    using assms(1) by (simp add: world_inv_def state_inv_def)
  from gap_tasks_skip_final [OF this assms(2,3)] assms(2) show ?thesis
    by (simp add: check_gap_condition_def lookup_run_exits_other)
qed

lemma lookup_check_leg_logic:
  assumes "map_of (legs (mem w)) k = Some l" and "status l = DONE \<or> status l = EXITED"
  shows "map_of (legs (mem (check_leg_logic e k' w))) k = Some l"
proof (cases "k' = k")
  case True
  with assms show ?thesis
    by (auto simp add: check_leg_logic_def split: option.splits)
next
  case False
  with assms(1) show ?thesis
    by (simp add: check_leg_logic_def case_prod_beta map_of_mutate_leg
        lookup_execute_exit_other lookup_execute_entry_other split: option.splits sum.splits)
qed

lemma lookup_monitor:
  assumes "map_of (legs (mem w)) k = Some l" and "status l = DONE \<or> status l = EXITED"
  shows "map_of (legs (mem (monitor_and_execute e w))) k = Some l"
proof -
  have "map_of (legs (mem (fold (check_leg_logic e) ks w))) k = Some l" for ks
    using assms(1)
  proof (induction ks arbitrary: w)
    case Nil
    then show ?case by simp
  next
    case (Cons x ks)
    from lookup_check_leg_logic [OF Cons.prems assms(2)]
    have "map_of (legs (mem (check_leg_logic e x w))) k = Some l" .
    from Cons.IH [OF this] show ?case by simp
  qed
  then show ?thesis by (simp add: monitor_and_execute_def)
qed

lemma final_leg_run_tasks:
  assumes "world_inv w" and "map_of (legs (mem w)) k = Some l"
    and "status l = DONE \<or> status l = EXITED"
    and "window_open (now e) t4 (strategy_exit (cfg e)) (exit_check_window_minutes (cfg e))
           \<noteq> Inr True"
  shows "map_of (legs (mem (snd (run_tasks e t1 t2 t3 t4 w)))) k = Some l"
proof -
  let ?w1 = "snd (task_gap_check e t3 w)"
  have not_active: "status l \<noteq> LEG_ACTIVE"
    using assms(3) by auto
  have l1: "map_of (legs (mem ?w1)) k = Some l"
    using assms(2) lookup_check_gap [OF assms(1,2) not_active, of e]
    by (simp add: task_gap_check_def split: sum.splits)
  have inv1: "world_inv ?w1"
    using assms(1) by (rule world_inv_gap_check)
  have ph1: "phase (mem ?w1) = ACTIVE"
    using inv1 l1 assms(3) by (rule final_leg_phase)
  have t2: "task_daily_exit e t4 ?w1 = (Inr (), ?w1)
            \<or> (\<exists>err. task_daily_exit e t4 ?w1 = (Inl err, ?w1))"
    using assms(4) by (auto simp add: task_daily_exit_def split: sum.splits)
  have t3: "task_start e t1 ?w1 = (Inr (), ?w1)"
    using ph1 by (simp add: task_start_def)
  have t4: "task_range_end e t2 ?w1 = (Inr (), ?w1)"
    using ph1 by (simp add: task_range_end_def)
  have t5: "map_of (legs (mem (snd (task_monitor e ?w1)))) k = Some l"
    using l1 lookup_monitor [OF l1 assms(3), of e] by (simp add: task_monitor_def)
  from t2 show ?thesis
  proof
    assume "task_daily_exit e t4 ?w1 = (Inr (), ?w1)"
    with l1 t3 t4 t5 show ?thesis
      by (simp add: run_tasks_def case_prod_beta split: sum.splits)
  next
    assume "\<exists>err. task_daily_exit e t4 ?w1 = (Inl err, ?w1)"
    with l1 show ?thesis
      by (auto simp add: run_tasks_def case_prod_beta split: sum.splits)
  qed
qed

lemma final_leg_tick:
  assumes "world_inv w" and "map_of (legs (mem w)) k = Some l"
    and "status l = DONE \<or> status l = EXITED"
    and "\<not> daily_exit_due e"
  shows "map_of (legs (mem (snd (tick e w)))) k = Some l"
  using assms(2,4) final_leg_run_tasks [OF assms(1,2,3), of e]
  by (auto simp add: tick_def daily_exit_due_def split: sum.splits)

lemma stop_loss_at_bound:
  assumes "map_of (legs (mem w)) k = Some l" and "status l = LEG_ACTIVE"
    and "2 \<le> entries_count l" and "action l = Some a"
    and "option_price e (token l) = Some p" and "p \<noteq> 0"
    and "if a = BUY then p \<le> sl_price l else p \<ge> sl_price l"
    and "fst (execute_exit e k p SL_HIT w) = Inr ()"
  shows "map_option status (map_of (legs (mem (check_leg_logic e k w))) k) = Some DONE"
proof -
  obtain qty where q: "order_quantity (cfg e) (mem w) l = Inr qty"
    using assms(1,4,8) by (cases "order_quantity (cfg e) (mem w) l") (simp_all add: execute_exit_def)
  have after_exit: "map_of (legs (mem (snd (execute_exit e k p SL_HIT w)))) k
      = Some (l\<lparr>status := EXITED, exit_price := Some p, exit_reason := Some SL_HIT\<rparr>)"
    using assms(1,4) q by (simp add: execute_exit_def map_of_mutate_leg)
  have "check_leg_logic e k w
      = mutate_leg k (\<lambda>d. d\<lparr>status := (if entries_count d < 2 then WAITING_REENTRY else DONE)\<rparr>)
          (snd (execute_exit e k p SL_HIT w))"
    using assms by (simp add: check_leg_logic_def case_prod_beta)
  then show ?thesis
    using after_exit assms(3) by (simp add: map_of_mutate_leg)
qed

section \<open>A run of the engine\<close>

lemmas tick_defs = tick_def run_tasks_def task_gap_check_def task_daily_exit_def task_start_def
  task_range_end_def task_monitor_def window_open_def py_time_def start_buffer_def
  monitor_and_execute_def check_leg_logic_def

lemmas run_defs = demo_tick_def demo_run_world_def demo_entered_def demo_buy_order_def
  demo_sell_order_def

lemma run1: "demo_tick 34260000000 None demo_boot
  = demo_run_world MONITORING_RANGE
      ((demo_leg BUY WAITING_RANGE 0)\<lparr>range_high := 0, range_low := 0, entry_price := 0, sl_price := 0\<rparr>)
      ((demo_leg BUY WAITING_RANGE 0)\<lparr>range_high := 0, range_low := 0, entry_price := 0, sl_price := 0\<rparr>) []"
  by (simp add: demo_boot_def run_defs demo_defs tick_defs startup_def load_state_def
      initial_state_def placeholder_leg_def select_strikes_def get_spot_price_at_def
      get_option_price_at_def premium_at_def get_expiry_def truthy_str_def find_leg_def
      selected_leg_def selection_values save_state_def)

lemma run2: "demo_tick 37800000000 None
     (demo_run_world MONITORING_RANGE
      ((demo_leg BUY WAITING_RANGE 0)\<lparr>range_high := 0, range_low := 0, entry_price := 0, sl_price := 0\<rparr>)
      ((demo_leg BUY WAITING_RANGE 0)\<lparr>range_high := 0, range_low := 0, entry_price := 0, sl_price := 0\<rparr>) [])
  = demo_run_world ACTIVE
      ((demo_leg BUY WAITING_ENTRY 0)\<lparr>entry_price := 0, sl_price := 0\<rparr>)
      ((demo_leg BUY WAITING_ENTRY 0)\<lparr>entry_price := 0, sl_price := 0\<rparr>) []"
  by (simp add: run_defs demo_defs tick_defs finalize_ranges_def finalize_leg_def
      save_state_def)

lemma run3: "demo_tick eleven (Some 280)
     (demo_run_world ACTIVE
      ((demo_leg BUY WAITING_ENTRY 0)\<lparr>entry_price := 0, sl_price := 0\<rparr>)
      ((demo_leg BUY WAITING_ENTRY 0)\<lparr>entry_price := 0, sl_price := 0\<rparr>) [])
  = demo_run_world ACTIVE (demo_entered 1) (demo_entered 1) [demo_buy_order]"
  by (simp add: run_defs demo_defs tick_defs exec_defs check_gap_condition_def
      stop_loss_values trigger_values)

lemma run4: "demo_tick eleven (Some 220)
     (demo_run_world ACTIVE (demo_entered 1) (demo_entered 1) [demo_buy_order])
  = demo_run_world ACTIVE
      ((demo_entered 1)\<lparr>status := WAITING_REENTRY, exit_price := Some 220,
                          exit_reason := Some SL_HIT\<rparr>)
      ((demo_entered 1)\<lparr>status := EXITED, exit_price := Some 220,
                          exit_reason := Some SL_HIT\<rparr>)
      [demo_buy_order, demo_sell_order]"
  by (simp add: run_defs demo_defs tick_defs exec_defs check_gap_condition_def
      stop_loss_values trigger_values)

lemma run5: "demo_tick eleven (Some 280)
     (demo_run_world ACTIVE
      ((demo_entered 1)\<lparr>status := WAITING_REENTRY, exit_price := Some 220,
                          exit_reason := Some SL_HIT\<rparr>)
      ((demo_entered 1)\<lparr>status := EXITED, exit_price := Some 220,
                          exit_reason := Some SL_HIT\<rparr>)
      [demo_buy_order, demo_sell_order])
  = demo_run_world ACTIVE
      ((demo_entered 2)\<lparr>exit_price := Some 220, exit_reason := Some SL_HIT\<rparr>)
      ((demo_entered 2)\<lparr>exit_price := Some 220, exit_reason := Some SL_HIT\<rparr>)
      [demo_buy_order, demo_sell_order, demo_buy_order]"
  by (simp add: run_defs demo_defs tick_defs exec_defs check_gap_condition_def
      stop_loss_values trigger_values)

lemma run6: "demo_tick eleven (Some 220)
     (demo_run_world ACTIVE
      ((demo_entered 2)\<lparr>exit_price := Some 220, exit_reason := Some SL_HIT\<rparr>)
      ((demo_entered 2)\<lparr>exit_price := Some 220, exit_reason := Some SL_HIT\<rparr>)
      [demo_buy_order, demo_sell_order, demo_buy_order])
  = demo_run_world ACTIVE
      ((demo_entered 2)\<lparr>status := DONE, exit_price := Some 220, exit_reason := Some SL_HIT\<rparr>)
      ((demo_entered 2)\<lparr>status := EXITED, exit_price := Some 220, exit_reason := Some SL_HIT\<rparr>)
      [demo_buy_order, demo_sell_order, demo_buy_order, demo_sell_order]"
  by (simp add: run_defs demo_defs tick_defs exec_defs check_gap_condition_def
      stop_loss_values trigger_values)

lemma reachable_demo_tick: "reachable w \<Longrightarrow> reachable (demo_tick t p w)"
  unfolding demo_tick_def by (rule reachable.step)

lemma reachable_demo_boot: "reachable demo_boot"
  unfolding demo_boot_def by (rule reachable.boot) (simp add: demo_defs)

lemma reachable_second_entry:
  "reachable (demo_run_world ACTIVE
      ((demo_entered 2)\<lparr>exit_price := Some 220, exit_reason := Some SL_HIT\<rparr>)
      ((demo_entered 2)\<lparr>exit_price := Some 220, exit_reason := Some SL_HIT\<rparr>)
      [demo_buy_order, demo_sell_order, demo_buy_order])"
proof -
  have "reachable (demo_tick 34260000000 None demo_boot)"
    using reachable_demo_boot by (rule reachable_demo_tick)
  then have "reachable (demo_tick 37800000000 None (demo_tick 34260000000 None demo_boot))"
    by (rule reachable_demo_tick)
  then have "reachable (demo_tick eleven (Some 280)
               (demo_tick 37800000000 None (demo_tick 34260000000 None demo_boot)))"
    by (rule reachable_demo_tick)
  then have "reachable (demo_tick eleven (Some 220) (demo_tick eleven (Some 280)
               (demo_tick 37800000000 None (demo_tick 34260000000 None demo_boot))))"
    by (rule reachable_demo_tick)
  then have "reachable (demo_tick eleven (Some 280) (demo_tick eleven (Some 220)
               (demo_tick eleven (Some 280)
               (demo_tick 37800000000 None (demo_tick 34260000000 None demo_boot)))))"
    by (rule reachable_demo_tick)
  then show ?thesis
    by (simp only: run1 run2 run3 run4 run5)
qed

lemma reachable_done:
  "reachable (demo_run_world ACTIVE
      ((demo_entered 2)\<lparr>status := DONE, exit_price := Some 220, exit_reason := Some SL_HIT\<rparr>)
      ((demo_entered 2)\<lparr>status := EXITED, exit_price := Some 220, exit_reason := Some SL_HIT\<rparr>)
      [demo_buy_order, demo_sell_order, demo_buy_order, demo_sell_order])"
  using reachable_demo_tick [OF reachable_second_entry, of eleven "Some 220"]
  by (simp only: run6)

section \<open>The re-entry bound (C5)\<close>

text \<open>
  Claim C5, for the worlds the engine can reach: (1) no leg has an entry counter above 2;
  (2) when the stop-loss of the leg monitor fires on an ACTIVE leg whose counter has
  reached 2 (the live price is truthy and has breached the stop in the leg's direction,
  and the exit is executed), the leg is DONE afterwards; (3) a leg that is DONE (or
  EXITED) is left exactly as it is, counter and status, by every iteration that is not
  inside the daily exit window, whatever the prices and the gateway do: it does not
  re-enter before the daily reset.
\<close>

theorem entries_bounded_and_done_final:
  assumes "reachable w"
  shows "((k, l) \<in> set (legs (mem w)) \<longrightarrow> entries_count l \<le> 2)
    \<and> (map_of (legs (mem w)) k = Some l \<longrightarrow> status l = LEG_ACTIVE \<longrightarrow> 2 \<le> entries_count l
          \<longrightarrow> action l = Some a \<longrightarrow> option_price e (token l) = Some p \<longrightarrow> p \<noteq> 0
          \<longrightarrow> (if a = BUY then p \<le> sl_price l else p \<ge> sl_price l)
          \<longrightarrow> fst (execute_exit e k p SL_HIT w) = Inr ()
          \<longrightarrow> map_option status (map_of (legs (mem (check_leg_logic e k w))) k) = Some DONE)
    \<and> (map_of (legs (mem w)) k = Some l \<longrightarrow> status l = DONE \<or> status l = EXITED
          \<longrightarrow> \<not> daily_exit_due e
          \<longrightarrow> map_of (legs (mem (snd (tick e w)))) k = Some l)"
proof -
  have inv: "world_inv w"
    using assms by (rule reachable_world_inv)
  then have "list_all (\<lambda>(k, l). leg_inv l) (legs (mem w))"
    by (simp add: world_inv_def state_inv_def)
  then have bounded: "(k, l) \<in> set (legs (mem w)) \<longrightarrow> entries_count l \<le> 2"
    by (auto simp add: list_all_iff leg_inv_le2)
  from bounded stop_loss_at_bound [of w k l a e p] final_leg_tick [OF inv, of k l e]
  show ?thesis
    by blast
qed

theorem entries_bounded_and_done_final_witness:
  "reachable (demo_run_world ACTIVE
      ((demo_entered 2)\<lparr>exit_price := Some 220, exit_reason := Some SL_HIT\<rparr>)
      ((demo_entered 2)\<lparr>exit_price := Some 220, exit_reason := Some SL_HIT\<rparr>)
      [demo_buy_order, demo_sell_order, demo_buy_order])
   \<and> entries_count ((demo_entered 2)\<lparr>exit_price := Some 220, exit_reason := Some SL_HIT\<rparr>) \<le> 2
   \<and> map_option status
        (map_of (legs (mem (check_leg_logic
           (demo_env BUY eleven (Some 220) (Returned (Some ''1000001''))) ''sp10ce''
           (demo_run_world ACTIVE
             ((demo_entered 2)\<lparr>exit_price := Some 220, exit_reason := Some SL_HIT\<rparr>)
             ((demo_entered 2)\<lparr>exit_price := Some 220, exit_reason := Some SL_HIT\<rparr>)
             [demo_buy_order, demo_sell_order, demo_buy_order])))) ''sp10ce'') = Some DONE
   \<and> reachable (demo_run_world ACTIVE
      ((demo_entered 2)\<lparr>status := DONE, exit_price := Some 220, exit_reason := Some SL_HIT\<rparr>)
      ((demo_entered 2)\<lparr>status := EXITED, exit_price := Some 220, exit_reason := Some SL_HIT\<rparr>)
      [demo_buy_order, demo_sell_order, demo_buy_order, demo_sell_order])
   \<and> \<not> daily_exit_due (demo_env BUY eleven (Some 280) (Returned (Some ''1000001'')))
   \<and> map_of (legs (mem (snd (tick (demo_env BUY eleven (Some 280) (Returned (Some ''1000001'')))
        (demo_run_world ACTIVE
          ((demo_entered 2)\<lparr>status := DONE, exit_price := Some 220, exit_reason := Some SL_HIT\<rparr>)
          ((demo_entered 2)\<lparr>status := EXITED, exit_price := Some 220, exit_reason := Some SL_HIT\<rparr>)
          [demo_buy_order, demo_sell_order, demo_buy_order, demo_sell_order]))))) ''sp10ce''
     = Some ((demo_entered 2)\<lparr>status := DONE, exit_price := Some 220,
                                 exit_reason := Some SL_HIT\<rparr>)"
proof -
  let ?l5 = "(demo_entered 2)\<lparr>exit_price := Some 220, exit_reason := Some SL_HIT\<rparr>"
  let ?w5 = "demo_run_world ACTIVE ?l5 ?l5 [demo_buy_order, demo_sell_order, demo_buy_order]"
  let ?l6 = "(demo_entered 2)\<lparr>status := DONE, exit_price := Some 220, exit_reason := Some SL_HIT\<rparr>"
  let ?w6 = "demo_run_world ACTIVE ?l6
      ((demo_entered 2)\<lparr>status := EXITED, exit_price := Some 220, exit_reason := Some SL_HIT\<rparr>)
      [demo_buy_order, demo_sell_order, demo_buy_order, demo_sell_order]"
  let ?down = "demo_env BUY eleven (Some 220) (Returned (Some ''1000001''))"
  let ?up = "demo_env BUY eleven (Some 280) (Returned (Some ''1000001''))"
  have r5: "reachable ?w5" by (rule reachable_second_entry)
  have r6: "reachable ?w6" by (rule reachable_done)
  have in5: "(''sp10ce'', ?l5) \<in> set (legs (mem ?w5))"
    and m5: "map_of (legs (mem ?w5)) ''sp10ce'' = Some ?l5"
    and st5: "status ?l5 = LEG_ACTIVE" and n5: "2 \<le> entries_count ?l5"
    and a5: "action ?l5 = Some BUY"
    and p5: "option_price ?down (token ?l5) = Some 220"
    and sl5: "if BUY = BUY then (220::real) \<le> sl_price ?l5 else 220 \<ge> sl_price ?l5"
    by (simp_all add: run_defs demo_defs)
  have x5: "fst (execute_exit ?down ''sp10ce'' 220 SL_HIT ?w5) = Inr ()"
    by (simp add: run_defs demo_defs exec_defs)
  have m6: "map_of (legs (mem ?w6)) ''sp10ce'' = Some ?l6"
    and st6: "status ?l6 = DONE \<or> status ?l6 = EXITED"
    by (simp_all add: run_defs demo_defs)
  have due: "\<not> daily_exit_due ?up"
    by (simp add: daily_exit_due_def demo_defs py_time_def window_open_def)
  note at5 = entries_bounded_and_done_final [OF r5, of "''sp10ce''" ?l5 BUY ?down 220]
  from at5 in5 have b: "entries_count ?l5 \<le> 2"
    by blast
  from at5 m5 st5 n5 a5 p5 sl5 x5
  have d: "map_option status (map_of (legs (mem (check_leg_logic ?down ''sp10ce'' ?w5)))
              ''sp10ce'') = Some DONE"
    by simp
  from entries_bounded_and_done_final [OF r6, of "''sp10ce''" ?l6 _ ?up] m6 st6 due
  have f: "map_of (legs (mem (snd (tick ?up ?w6)))) ''sp10ce'' = Some ?l6"
    by blast
  from r5 b d r6 due f show ?thesis
    by blast
qed

section \<open>The daily exit run twice (C7)\<close>

text \<open>The orders that a batch of exits adds are the exit orders of the legs it names.\<close>

lemma execute_exit_raised:
  "execute_exit e k p r w = (Inl err, w') \<Longrightarrow> w' = w"
  by (auto simp add: execute_exit_def split: option.splits sum.splits)

lemma execute_exit_done:
  assumes "execute_exit e k p r w = (Inr u, w')"
  shows "\<exists>ev. exit_order_of e w k ev \<and> orders w' = orders w @ [ev]"
proof -
  from assms obtain l where l: "map_of (legs (mem w)) k = Some l"
    by (cases "map_of (legs (mem w)) k") (simp_all add: execute_exit_def)
  from assms l obtain qty where q: "order_quantity (cfg e) (mem w) l = Inr qty"
    by (cases "order_quantity (cfg e) (mem w) l") (simp_all add: execute_exit_def)
  from assms l q obtain a where a: "action l = Some a"
    by (cases "action l") (simp_all add: execute_exit_def)
  from assms l q a
  have "orders w' = orders w @ [order_event e l (if a = BUY then SELL else BUY) qty]"
    by (auto simp add: execute_exit_def save_state_def mutate_leg_def log_event_def)
  moreover have "exit_order_of e w k (order_event e l (if a = BUY then SELL else BUY) qty)"
    using l q a by (simp add: exit_order_of_def)
  ultimately show ?thesis by blast
qed

lemma instrument_execute_exit [simp]:
  "instrument (mem (snd (execute_exit e k p r w))) = instrument (mem w)"
  by (simp add: exec_defs split: option.splits sum.splits)

lemma exit_order_of_cong:
  assumes "exit_order_of e w' k ev"
    and "map_of (legs (mem w')) k = map_of (legs (mem w)) k"
    and "instrument (mem w') = instrument (mem w)"
  shows "exit_order_of e w k ev"
proof -
  have qty: "order_quantity (cfg e) (mem w') l = order_quantity (cfg e) (mem w) l" for l
    using assms(3) by (simp add: order_quantity_def)
  have "exit_order_of e w' k ev = exit_order_of e w k ev"
    by (simp add: exit_order_of_def qty assms(2) cong: option.case_cong)
  with assms(1) show ?thesis
    by simp
qed

lemma run_exits_orders:
  assumes "distinct (map fst ts)"
  shows "\<exists>evs. orders (snd (run_exits e r ts w)) = orders w @ evs
           \<and> (\<forall>ev \<in> set evs. \<exists>k \<in> fst ` set ts. exit_order_of e w k ev)"
  using assms
proof (induction ts arbitrary: w)
  case Nil
  then show ?case by simp
next
  case (Cons t ts)
  obtain k p where t: "t = (k, p)" by (cases t)
  from Cons.prems have dist: "distinct (map fst ts)" and fresh: "k \<notin> fst ` set ts"
    by (simp_all add: t)
  obtain res w' where ex: "execute_exit e k p r w = (res, w')"
    by (cases "execute_exit e k p r w")
  then have w': "w' = snd (execute_exit e k p r w)" by simp
  from Cons.IH [OF dist, of w'] obtain evs where
    evs: "orders (snd (run_exits e r ts w')) = orders w' @ evs"
    and each: "\<forall>ev \<in> set evs. \<exists>k \<in> fst ` set ts. exit_order_of e w' k ev"
    by blast
  have each': "\<exists>k' \<in> fst ` set (t # ts). exit_order_of e w k' ev" if "ev \<in> set evs" for ev
  proof -
    from that each obtain k' where k': "k' \<in> fst ` set ts" and o: "exit_order_of e w' k' ev"
      by blast
    from k' fresh have "k \<noteq> k'" by auto
    then have "map_of (legs (mem w')) k' = map_of (legs (mem w)) k'"
      unfolding w' by (rule lookup_execute_exit_other)
    moreover have "instrument (mem w') = instrument (mem w)"
      unfolding w' by simp
    ultimately have "exit_order_of e w k' ev"
      using o by (intro exit_order_of_cong [of e w' k' ev w])
    with k' show ?thesis by auto
  qed
  show ?case
  proof (cases res)
    case (Inl err)
    with ex have "w' = w" by (simp add: execute_exit_raised)
    with Inl ex evs have "orders (snd (run_exits e r (t # ts) w)) = orders w @ evs"
      by (simp add: t)
    with each' show ?thesis by blast
  next
    case (Inr u)
    with ex execute_exit_done [of e k p r w u w'] obtain ev0 where
      o: "exit_order_of e w k ev0" and ow: "orders w' = orders w @ [ev0]"
      by blast
    have "orders (snd (run_exits e r (t # ts) w)) = orders w @ (ev0 # evs)"
      using Inr ex evs ow by (simp add: t)
    moreover have "\<exists>k' \<in> fst ` set (t # ts). exit_order_of e w k' ev" if "ev \<in> set (ev0 # evs)" for ev
    proof (cases "ev = ev0")
      case True
      with o show ?thesis by (auto simp add: t)
    next
      case False
      with that have "ev \<in> set evs" by simp
      then show ?thesis by (rule each')
    qed
    ultimately show ?thesis by blast
  qed
qed

lemma square_off_keys:
  "k \<in> fst ` set (square_off_tasks ls) \<Longrightarrow> \<exists>l. (k, l) \<in> set ls \<and> status l = LEG_ACTIVE"
  by (auto simp add: square_off_tasks_def)

lemma distinct_square_off:
  "distinct (map fst ls) \<Longrightarrow> distinct (map fst (square_off_tasks ls))"
  by (induction ls) (auto simp add: square_off_tasks_def)

lemma map_of_marked:
  "map_of (map (\<lambda>(k, l). (k, mark_waiting_done l)) ls) k
     = map_option mark_waiting_done (map_of ls k)"
  by (induction ls) auto

lemma strategy_exit_orders:
  assumes "distinct (map fst (legs (mem w)))"
  shows "\<exists>evs. orders (snd (execute_strategy_exit e w)) = orders w @ evs
           \<and> (\<forall>ev \<in> set evs. \<exists>k l. map_of (legs (mem w)) k = Some l
                  \<and> status l = LEG_ACTIVE \<and> exit_order_of e w k ev)"
proof -
  let ?w = "w\<lparr>mem := (mem w)\<lparr>legs := map (\<lambda>(k, l). (k, mark_waiting_done l)) (legs (mem w))\<rparr>\<rparr>"
  let ?ts = "square_off_tasks (legs (mem w))"
  from run_exits_orders [OF distinct_square_off [OF assms], of e DAILY_SQUARE_OFF ?w]
  obtain evs where evs: "orders (snd (run_exits e DAILY_SQUARE_OFF ?ts ?w)) = orders ?w @ evs"
    and each: "\<forall>ev \<in> set evs. \<exists>k \<in> fst ` set ?ts. exit_order_of e ?w k ev"
    by blast
  have "\<exists>k l. map_of (legs (mem w)) k = Some l \<and> status l = LEG_ACTIVE
          \<and> exit_order_of e w k ev" if "ev \<in> set evs" for ev
  proof -
    from that each obtain k where k: "k \<in> fst ` set ?ts" and o: "exit_order_of e ?w k ev"
      by blast
    from square_off_keys [OF k] obtain l where "(k, l) \<in> set (legs (mem w))"
      and active: "status l = LEG_ACTIVE" by blast
    with assms have l: "map_of (legs (mem w)) k = Some l" by simp
    have "mark_waiting_done l = l"
      using active by (simp add: mark_waiting_done_def)
    with l have "map_of (legs (mem ?w)) k = map_of (legs (mem w)) k"
      by (simp add: map_of_marked)
    moreover have "instrument (mem ?w) = instrument (mem w)" by simp
    ultimately have "exit_order_of e w k ev"
      using o by (intro exit_order_of_cong [of e ?w k ev w])
    with l active show ?thesis by blast
  qed
  moreover have "orders (snd (execute_strategy_exit e w)) = orders w @ evs"
    using evs by (simp add: execute_strategy_exit_def)
  ultimately show ?thesis by blast
qed

lemma daily_exit_orders:
  assumes "distinct (map fst (legs (mem w)))"
  shows "\<exists>evs. orders (snd (task_daily_exit e t w)) = orders w @ evs
           \<and> (\<forall>ev \<in> set evs. \<exists>k l. map_of (legs (mem w)) k = Some l
                  \<and> status l = LEG_ACTIVE \<and> exit_order_of e w k ev)"
proof -
  have "orders (snd (task_daily_exit e t w)) = orders w
        \<or> orders (snd (task_daily_exit e t w)) = orders (snd (execute_strategy_exit e w))"
    by (simp add: task_daily_exit_def case_prod_beta save_state_def split: sum.splits)
  then show ?thesis
  proof
    assume "orders (snd (task_daily_exit e t w)) = orders w"
    then have "orders (snd (task_daily_exit e t w)) = orders w @ []
           \<and> (\<forall>ev \<in> set []. \<exists>k l. map_of (legs (mem w)) k = Some l
                  \<and> status l = LEG_ACTIVE \<and> exit_order_of e w k ev)"
      by simp
    then show ?thesis by blast
  next
    assume "orders (snd (task_daily_exit e t w)) = orders (snd (execute_strategy_exit e w))"
    with strategy_exit_orders [OF assms, of e] show ?thesis by simp
  qed
qed

lemma daily_exit_resets:
  assumes "window_open (now e) t (strategy_exit (cfg e)) (exit_check_window_minutes (cfg e))
             = Inr True"
    and "task_daily_exit e t w = (Inr (), w1)"
  shows "phase (mem w1) = IDLE"
  using assms
  by (cases "phase (mem w) = IDLE")
    (auto simp add: task_daily_exit_def case_prod_beta save_state_def split: sum.splits)

lemma daily_exit_idle:
  assumes "phase (mem w) = IDLE"
  shows "snd (task_daily_exit e t w) = w"
  using assms by (simp add: task_daily_exit_def split: sum.splits)

text \<open>
  Claim C7: a second run of the daily exit task places no exit order again. When the first
  run, inside the window, comes to its end, the phase is IDLE and a second run (at any
  time, with any configuration and gateway) leaves the whole world, the list of orders
  included, as it is. And whenever the task runs on a legs dict, every order it places is
  the exit order of a leg that is ACTIVE at that moment: none is placed for a leg that is
  EXITED or DONE.
\<close>

theorem daily_exit_twice:
  "(window_open (now e) t (strategy_exit (cfg e)) (exit_check_window_minutes (cfg e)) = Inr True
      \<longrightarrow> task_daily_exit e t w = (Inr (), w1)
      \<longrightarrow> phase (mem w1) = IDLE \<and> snd (task_daily_exit e' t' w1) = w1)
   \<and> (distinct (map fst (legs (mem w))) \<longrightarrow>
        (\<exists>evs. orders (snd (task_daily_exit e t w)) = orders w @ evs
           \<and> (\<forall>ev \<in> set evs. \<exists>k l. map_of (legs (mem w)) k = Some l
                  \<and> status l = LEG_ACTIVE \<and> exit_order_of e w k ev)))"
  using daily_exit_resets [of e t w w1] daily_exit_idle [of w1 e' t']
    daily_exit_orders [of w e t]
  by blast

theorem daily_exit_twice_witness:
  "window_open (now (demo_env BUY 33780000000 None (Returned (Some ''1000001''))))
      33720000000
      (strategy_exit (cfg (demo_env BUY 33780000000 None (Returned (Some ''1000001'')))))
      (exit_check_window_minutes
         (cfg (demo_env BUY 33780000000 None (Returned (Some ''1000001''))))) = Inr True
   \<and> task_daily_exit (demo_env BUY 33780000000 None (Returned (Some ''1000001'')))
        33720000000
        (demo_run_world ACTIVE
           ((demo_entered 2)\<lparr>exit_price := Some 220, exit_reason := Some SL_HIT\<rparr>)
           ((demo_entered 2)\<lparr>exit_price := Some 220, exit_reason := Some SL_HIT\<rparr>)
           [demo_buy_order, demo_sell_order, demo_buy_order])
     = (Inr (), demo_after_reset)
   \<and> orders demo_after_reset
       = [demo_buy_order, demo_sell_order, demo_buy_order, demo_sell_order]
   \<and> snd (task_daily_exit (demo_env BUY 33840000000 None (Returned (Some ''1000001'')))
             33720000000 demo_after_reset) = demo_after_reset
   \<and> distinct (map fst (legs (mem (demo_world BUY DONE 2))))
   \<and> orders (snd (task_daily_exit (demo_env BUY 33780000000 None (Returned (Some ''1000001'')))
                     33720000000 (demo_world BUY DONE 2)))
       = orders (demo_world BUY DONE 2)"
proof -
  let ?e = "demo_env BUY 33780000000 None (Returned (Some ''1000001''))"
  let ?f = "demo_env BUY 33840000000 None (Returned (Some ''1000001''))"
  let ?l5 = "(demo_entered 2)\<lparr>exit_price := Some 220, exit_reason := Some SL_HIT\<rparr>"
  let ?w5 = "demo_run_world ACTIVE ?l5 ?l5 [demo_buy_order, demo_sell_order, demo_buy_order]"
  let ?wd = "demo_world BUY DONE 2"
  have due: "window_open (now ?e) 33720000000 (strategy_exit (cfg ?e))
               (exit_check_window_minutes (cfg ?e)) = Inr True"
    by (simp add: demo_defs window_open_def py_time_def)
  have first: "task_daily_exit ?e 33720000000 ?w5 = (Inr (), demo_after_reset)"
    by (simp add: demo_after_reset_def run_defs demo_defs task_daily_exit_def window_open_def
        py_time_def execute_strategy_exit_def square_off_tasks_def mark_waiting_done_def
        exec_defs)
  have logged: "orders demo_after_reset
       = [demo_buy_order, demo_sell_order, demo_buy_order, demo_sell_order]"
    by (simp add: demo_after_reset_def)
  from daily_exit_twice [of ?e 33720000000 ?w5 demo_after_reset ?f 33720000000] due first
  have second: "snd (task_daily_exit ?f 33720000000 demo_after_reset) = demo_after_reset"
    by blast
  have dist: "distinct (map fst (legs (mem ?wd)))"
    by (simp add: demo_defs)
  have only: "status l = DONE" if "map_of (legs (mem ?wd)) k = Some l" for k l
    using that by (auto simp add: demo_defs split: if_splits)
  from daily_exit_twice [of ?e 33720000000 ?wd] dist
  obtain evs where evs: "orders (snd (task_daily_exit ?e 33720000000 ?wd)) = orders ?wd @ evs"
    and each: "\<forall>ev \<in> set evs. \<exists>k l. map_of (legs (mem ?wd)) k = Some l
                  \<and> status l = LEG_ACTIVE \<and> exit_order_of ?e ?wd k ev"
    by blast
  have "evs = []"
  proof (cases evs)
    case Nil
    then show ?thesis .
  next
    case (Cons ev rest)
    with each obtain k l where "map_of (legs (mem ?wd)) k = Some l" and "status l = LEG_ACTIVE"
      by auto
    with only [of k l] show ?thesis by simp
  qed
  with evs have none: "orders (snd (task_daily_exit ?e 33720000000 ?wd)) = orders ?wd"
    by simp
  from due first logged second dist none show ?thesis
    by blast
qed

end
